theory Spec2Isabelle
  imports
    Complex_Main
    "HOL-Library.Char_ord"
    "HOL-Library.List_Lexorder"
    "HOL-Library.Log_Nat"
    "HOL-Library.Multiset"
begin

section \<open>Strings and arrays as the JavaScript code uses them\<close>

text \<open>
  A JavaScript string is modelled as a \<^typ>\<open>string\<close>, one \<^typ>\<open>char\<close> per code unit.
  \<open>undefined\<close> is \<open>None\<close> wherever a JavaScript expression may evaluate to it.
\<close>

definition startsWith :: "string \<Rightarrow> string \<Rightarrow> bool" where
  \<comment> \<open>\<^verbatim>\<open>s.startsWith(p)\<close>\<close>
  "startsWith s p \<longleftrightarrow> take (length p) s = p"

fun str_split :: "char \<Rightarrow> string \<Rightarrow> string list" where
  \<comment> \<open>\<^verbatim>\<open>s.split(sep)\<close> for a one-character separator; \<^verbatim>\<open>"".split(".")\<close> is \<^verbatim>\<open>[""]\<close>\<close>
  "str_split sep [] = [[]]"
| "str_split sep (c # cs) =
     (if c = sep then [] # str_split sep cs
      else (case str_split sep cs of
              [] \<Rightarrow> [[c]]
            | w # ws \<Rightarrow> (c # w) # ws))"

fun findIndex :: "('a \<Rightarrow> bool) \<Rightarrow> 'a list \<Rightarrow> nat option" where
  \<comment> \<open>\<^verbatim>\<open>xs.findIndex(P)\<close>; \<open>None\<close> stands for \<^verbatim>\<open>-1\<close>\<close>
  "findIndex P [] = None"
| "findIndex P (x # xs) = (if P x then Some 0 else map_option Suc (findIndex P xs))"

definition at_index :: "'a list \<Rightarrow> nat \<Rightarrow> 'a option" where
  \<comment> \<open>\<^verbatim>\<open>xs[i]\<close>: \<open>undefined\<close> beyond the end of the array\<close>
  "at_index xs i = (if i < length xs then Some (xs ! i) else None)"


section \<open>Command-line language hint (\<^verbatim>\<open>src/i18n.js\<close>, \<^verbatim>\<open>parseLanguageFromArgs\<close>)\<close>

definition langFlag :: "string \<Rightarrow> bool" where
  \<comment> \<open>\<^verbatim>\<open>arg => arg === '--lang' || arg === '--language'\<close>\<close>
  "langFlag arg \<longleftrightarrow> arg = ''--lang'' \<or> arg = ''--language''"

definition langAssign :: "string \<Rightarrow> bool" where
  \<comment> \<open>\<^verbatim>\<open>arg => arg.startsWith('--lang=') || arg.startsWith('--language=')\<close>\<close>
  "langAssign arg \<longleftrightarrow> startsWith arg ''--lang='' \<or> startsWith arg ''--language=''"

definition parseLanguageFromArgs :: "string list \<Rightarrow> string option" where
  \<comment> \<open>The result \<open>None\<close> is \<^verbatim>\<open>null\<close>. The first \<^verbatim>\<open>if\<close> tests the truthiness of
      \<^verbatim>\<open>args[langIndex + 1]\<close>: \<open>undefined\<close> and the empty string both fail it.\<close>
  "parseLanguageFromArgs args =
     (let langIndex = findIndex langFlag args;
          following = (case langIndex of None \<Rightarrow> None | Some i \<Rightarrow> at_index args (i + 1))
      in if langIndex \<noteq> None \<and> following \<noteq> None \<and> following \<noteq> Some []
         then following
         else (case find langAssign args of
                 Some langArg \<Rightarrow> at_index (str_split CHR ''='' langArg) 1
               | None \<Rightarrow> None))"


section \<open>Locale trees: parsed JSON values\<close>

text \<open>
  A locale file is read with \<^verbatim>\<open>JSON.parse\<close>. An object is the list of its entries in the
  order of \<^verbatim>\<open>Object.entries\<close>; an object has one value for each key, so the keys of a
  well-formed object are distinct (\<open>wf_json\<close>). A number carries the value of the parsed
  double.
\<close>

datatype json =
    JNull
  | JBool bool
  | JNum rat
  | JStr string
  | JArr "json list"
  | JObj "(string \<times> json) list"

fun wf_json :: "json \<Rightarrow> bool" where
  "wf_json (JObj kvs) = (distinct (map fst kvs) \<and> (\<forall>kv \<in> set kvs. wf_json (snd kv)))"
| "wf_json (JArr xs) = (\<forall>x \<in> set xs. wf_json x)"
| "wf_json _ = True"

fun dotless :: "json \<Rightarrow> bool" where
  \<comment> \<open>no segment name of the tree contains the path separator\<close>
  "dotless (JObj kvs) = (\<forall>kv \<in> set kvs. CHR ''.'' \<notin> set (fst kv) \<and> dotless (snd kv))"
| "dotless _ = True"

datatype error =
    TypeError
  | FallbackLocaleNotFound string
  | FailedToLoadLocale string
  | LanguageFileNotFound string
  | FailedToParse string
  | ReportNotWritten

fun digit_char :: "nat \<Rightarrow> char" where
  "digit_char n = (''0123456789'' ! (n mod 10))"

fun string_of_nat :: "nat \<Rightarrow> string" where
  \<comment> \<open>\<^verbatim>\<open>String(i)\<close> for an array index \<open>i\<close>\<close>
  "string_of_nat n = (if n < 10 then [digit_char n] else string_of_nat (n div 10) @ [digit_char n])"

declare string_of_nat.simps [simp del]

definition objectEntries :: "json \<Rightarrow> (string \<times> json) list option" where
  \<comment> \<open>\<^verbatim>\<open>Object.entries(v)\<close>; \<open>None\<close> is the \<^verbatim>\<open>TypeError\<close> thrown for \<^verbatim>\<open>null\<close>\<close>
  "objectEntries v =
     (case v of
        JNull \<Rightarrow> None
      | JBool _ \<Rightarrow> Some []
      | JNum _ \<Rightarrow> Some []
      | JStr s \<Rightarrow> Some (zip (map string_of_nat [0..<length s]) (map (\<lambda>c. JStr [c]) s))
      | JArr xs \<Rightarrow> Some (zip (map string_of_nat [0..<length xs]) xs)
      | JObj kvs \<Rightarrow> Some kvs)"


section \<open>Key extraction (\<^verbatim>\<open>scripts/validate-translations.js\<close>, \<^verbatim>\<open>extractKeys\<close>)\<close>

definition fullKeyOf :: "string \<Rightarrow> string \<Rightarrow> string" where
  \<comment> \<open>\<^verbatim>\<open>prefix ? `${prefix}.${key}` : key\<close>: the empty prefix is falsy\<close>
  "fullKeyOf prefix key = (if prefix \<noteq> [] then prefix @ ''.'' @ key else key)"

text \<open>
  \<open>extractLoop\<close> is the \<^verbatim>\<open>for\<close> loop of \<^verbatim>\<open>extractKeys\<close> over the entries of its argument.
  The test \<^verbatim>\<open>value && typeof value === 'object' && !Array.isArray(value)\<close> holds of a parsed
  JSON value exactly when it is an object, and then the recursive call
  \<^verbatim>\<open>this.extractKeys(value, fullKey)\<close> returns the sorted keys of the loop over the entries
  of \<^verbatim>\<open>value\<close> (lemma \<open>extractKeys_JObj\<close> below).
\<close>

function extractLoop :: "(string \<times> json) list \<Rightarrow> string \<Rightarrow> string list" where
  "extractLoop [] prefix = []"
| "extractLoop ((key, val) # rest) prefix =
     (if startsWith key ''_'' then extractLoop rest prefix
      else (case val of
              JObj kvs \<Rightarrow> sort (extractLoop kvs (fullKeyOf prefix key))
            | _ \<Rightarrow> [fullKeyOf prefix key])
           @ extractLoop rest prefix)"
  by pat_completeness auto
termination
  by (relation "measure (\<lambda>(kvs, prefix). size (JObj kvs))") auto

definition extractKeys :: "json \<Rightarrow> string \<Rightarrow> error + string list" where
  "extractKeys obj prefix =
     (case objectEntries obj of
        None \<Rightarrow> Inl TypeError
      | Some entries \<Rightarrow> Inr (sort (extractLoop entries prefix)))"

text \<open>
  The key paths of a tree as the specification describes them: every path from the root
  to a leaf, its segments joined by dots, depth first, without the segments whose name
  starts with the metadata prefix; a leaf is every value that is not a nested tree.
\<close>

fun spec_keyPaths :: "(string \<times> json) list \<Rightarrow> string list" where
  "spec_keyPaths [] = []"
| "spec_keyPaths ((key, val) # rest) =
     (if startsWith key ''_'' then spec_keyPaths rest
      else (case val of
              JObj kvs \<Rightarrow> map (\<lambda>path. key @ ''.'' @ path) (spec_keyPaths kvs)
            | _ \<Rightarrow> [key])
           @ spec_keyPaths rest)"


section \<open>JavaScript values and property access\<close>

text \<open>
  The resolver indexes values with \<^verbatim>\<open>current[segment]\<close> and \<^verbatim>\<open>params[key]\<close>. Such an access
  finds the own properties of the value first: the members of an object, the elements and
  the \<^verbatim>\<open>length\<close> of an array, the characters and the \<^verbatim>\<open>length\<close> of a string. What is not an
  own property is looked up on the prototype chain, which belongs to the JavaScript
  runtime and not to this program: it is the parameter \<open>prototype\<close> of every function that
  reads a property, and so is the conversion \<open>toStr\<close> of a value other than a string, a
  boolean or \<^verbatim>\<open>null\<close> to a string. A value that the runtime supplies (a built-in function, a
  prototype object) is \<open>NativeFunction\<close> or \<open>NativeObject\<close>.
\<close>

datatype jsval = Data json | NativeFunction nat | NativeObject nat

datatype jstype = TString | TNumber | TBoolean | TObject | TFunction

datatype holder =
  PlainObject | ArrayObject | StringValue | NumberValue | BooleanValue | NativeNo nat

record runtime =
  prototype :: "holder \<Rightarrow> string \<Rightarrow> jsval option"
  toStr :: "jsval \<Rightarrow> string"

fun typeof :: "jsval \<Rightarrow> jstype" where
  "typeof (Data JNull) = TObject"
| "typeof (Data (JBool _)) = TBoolean"
| "typeof (Data (JNum _)) = TNumber"
| "typeof (Data (JStr _)) = TString"
| "typeof (Data (JArr _)) = TObject"
| "typeof (Data (JObj _)) = TObject"
| "typeof (NativeFunction _) = TFunction"
| "typeof (NativeObject _) = TObject"

fun truthy :: "jsval \<Rightarrow> bool" where
  "truthy (Data JNull) = False"
| "truthy (Data (JBool b)) = b"
| "truthy (Data (JNum q)) = (q \<noteq> 0)"
| "truthy (Data (JStr s)) = (s \<noteq> [])"
| "truthy _ = True"

fun holder_of :: "jsval \<Rightarrow> holder" where
  "holder_of (Data (JObj _)) = PlainObject"
| "holder_of (Data (JArr _)) = ArrayObject"
| "holder_of (Data (JStr _)) = StringValue"
| "holder_of (Data (JNum _)) = NumberValue"
| "holder_of (Data (JBool _)) = BooleanValue"
| "holder_of (Data JNull) = PlainObject"
| "holder_of (NativeFunction n) = NativeNo n"
| "holder_of (NativeObject n) = NativeNo n"

definition index_of :: "string \<Rightarrow> nat \<Rightarrow> nat option" where
  \<comment> \<open>the array index below \<open>n\<close> that the property name \<open>seg\<close> denotes, if any\<close>
  "index_of seg n = find (\<lambda>i. string_of_nat i = seg) [0..<n]"

fun own_property :: "jsval \<Rightarrow> string \<Rightarrow> jsval option" where
  "own_property (Data (JObj kvs)) seg = map_option Data (map_of kvs seg)"
| "own_property (Data (JArr xs)) seg =
     (if seg = ''length'' then Some (Data (JNum (of_nat (length xs))))
      else map_option (\<lambda>i. Data (xs ! i)) (index_of seg (length xs)))"
| "own_property (Data (JStr s)) seg =
     (if seg = ''length'' then Some (Data (JNum (of_nat (length s))))
      else map_option (\<lambda>i. Data (JStr [s ! i])) (index_of seg (length s)))"
| "own_property _ seg = None"

definition property :: "runtime \<Rightarrow> jsval \<Rightarrow> string \<Rightarrow> jsval option" where
  \<comment> \<open>\<^verbatim>\<open>v[seg]\<close> for a value \<open>v\<close> other than \<^verbatim>\<open>null\<close>; \<open>None\<close> is \<open>undefined\<close>\<close>
  "property rt v seg =
     (case own_property v seg of
        Some x \<Rightarrow> Some x
      | None \<Rightarrow> prototype rt (holder_of v) seg)"


section \<open>The translation resolver (\<^verbatim>\<open>src/i18n.js\<close>, class \<^verbatim>\<open>I18n\<close>)\<close>

text \<open>
  The state of an instance. The fields \<open>locale'\<close> and \<open>translations'\<close> are \<^verbatim>\<open>this.locale\<close>
  and \<^verbatim>\<open>this.translations\<close>. The files of the locale directory are a function from file names to what \<^verbatim>\<open>existsSync\<close>, \<^verbatim>\<open>readFileSync\<close> and
  \<^verbatim>\<open>JSON.parse\<close> make of them; \<open>listing\<close> is the result of \<^verbatim>\<open>readdirSync\<close>, \<open>None\<close> when it
  throws.
\<close>

datatype source = Missing | Unparsable | Parsed json

record locale_dir =
  listing :: "string list option"
  source_of :: "string \<Rightarrow> source"

record i18n =
  locale' :: string
  fallbackLocale :: string
  translations' :: "string \<rightharpoonup> json"
  loadedLocales :: "string set"

definition loadLocale :: "locale_dir \<Rightarrow> i18n \<Rightarrow> string \<Rightarrow> error + (bool \<times> i18n)" where
  "loadLocale dir st loc =
     (if loc \<in> loadedLocales st then Inr (True, st)
      else (case source_of dir (loc @ ''.json'') of
              Missing \<Rightarrow>
                (if loc \<noteq> fallbackLocale st then Inr (False, st)
                 else Inl (FallbackLocaleNotFound loc))
            | Unparsable \<Rightarrow> Inl (FailedToLoadLocale loc)
            | Parsed tree \<Rightarrow>
                Inr (True, st\<lparr>translations' := (translations' st)(loc \<mapsto> tree),
                               loadedLocales := insert loc (loadedLocales st)\<rparr>)))"

definition new_I18n :: "locale_dir \<Rightarrow> string \<Rightarrow> string \<Rightarrow> error + i18n" where
  \<comment> \<open>the constructor, for the values of \<^verbatim>\<open>this.locale\<close> and \<^verbatim>\<open>this.fallbackLocale\<close> that the
      options and the detection give\<close>
  "new_I18n dir loc fallback =
     (let st = \<lparr>locale' = loc, fallbackLocale = fallback,
                translations' = Map.empty, loadedLocales = {}\<rparr>
      in case loadLocale dir st loc of
           Inl e \<Rightarrow> Inl e
         | Inr (_, st1) \<Rightarrow>
             (if loc \<noteq> fallback
              then (case loadLocale dir st1 fallback of
                      Inl e \<Rightarrow> Inl e
                    | Inr (_, st2) \<Rightarrow> Inr st2)
              else Inr st1))"

definition reducer :: "runtime \<Rightarrow> jsval option \<Rightarrow> string \<Rightarrow> jsval option" where
  \<comment> \<open>the callback of \<^verbatim>\<open>reduce\<close>:
      \<^verbatim>\<open>current && current[segment] !== undefined ? current[segment] : undefined\<close>\<close>
  "reducer rt current segment =
     (case current of
        None \<Rightarrow> None
      | Some c \<Rightarrow> (if truthy c then property rt c segment else None))"

definition getNestedValue :: "runtime \<Rightarrow> jsval option \<Rightarrow> string \<Rightarrow> jsval option" where
  "getNestedValue rt obj key =
     (case obj of
        None \<Rightarrow> None
      | Some v \<Rightarrow>
          (if \<not> truthy v \<or> typeof v \<noteq> TObject then None
           else foldl (reducer rt) (Some v) (str_split CHR ''.'' key)))"

type_synonym params = "(string \<times> jsval option) list"
  \<comment> \<open>the own properties of the \<^verbatim>\<open>params\<close> object, in the order of \<^verbatim>\<open>Object.keys\<close>; a property
      may hold \<open>undefined\<close>\<close>

definition param_value :: "runtime \<Rightarrow> params \<Rightarrow> string \<Rightarrow> jsval option" where
  \<comment> \<open>\<^verbatim>\<open>params[key]\<close>\<close>
  "param_value rt ps name =
     (case map_of ps name of
        Some v \<Rightarrow> v
      | None \<Rightarrow> prototype rt PlainObject name)"

definition stringify :: "runtime \<Rightarrow> jsval \<Rightarrow> string" where
  \<comment> \<open>the conversion that \<^verbatim>\<open>String.prototype.replace\<close> applies to what the callback returns\<close>
  "stringify rt v =
     (case v of
        Data (JStr s) \<Rightarrow> s
      | Data (JBool b) \<Rightarrow> (if b then ''true'' else ''false'')
      | Data JNull \<Rightarrow> ''null''
      | _ \<Rightarrow> toStr rt v)"

definition word_char :: "char \<Rightarrow> bool" where
  \<comment> \<open>the class \<^verbatim>\<open>\w\<close> of a regular expression without the unicode flag\<close>
  "word_char c \<longleftrightarrow>
     c \<in> set ''abcdefghijklmnopqrstuvwxyzABCDEFGHIJKLMNOPQRSTUVWXYZ0123456789_''"

text \<open>
  \<^verbatim>\<open>template.replace(/\{(\w+)\}/g, callback)\<close>: the scan goes from left to right. Where an
  opening brace is followed by one or more word characters and a closing brace, the match
  is replaced by what the callback returns and the scan goes on behind the closing brace;
  elsewhere one character is copied.
\<close>

function interpolate :: "runtime \<Rightarrow> string \<Rightarrow> params \<Rightarrow> string" where
  "interpolate rt [] ps = []"
| "interpolate rt (c # cs) ps =
     (let name = takeWhile word_char cs;
          rest = dropWhile word_char cs
      in if c = CHR ''{'' \<and> name \<noteq> [] \<and> rest \<noteq> [] \<and> hd rest = CHR ''}''
         then (case param_value rt ps name of
                 Some v \<Rightarrow> stringify rt v
               | None \<Rightarrow> ''{'' @ name @ ''}'')
              @ interpolate rt (tl rest) ps
         else c # interpolate rt cs ps)"
  by pat_completeness auto
termination
proof (relation "measure (\<lambda>(rt, template, ps). length template)")
  show "wf (measure (\<lambda>(rt, template, ps). length template))"
    by simp
next
  fix rt :: runtime and c :: char and cs :: string and ps :: params and x xa
  assume "x = takeWhile word_char cs" and "xa = dropWhile word_char cs"
  then have "length xa \<le> length cs"
    by (simp add: length_dropWhile_le)
  moreover have "length (tl xa) \<le> length xa"
    by simp
  ultimately have "length (tl xa) \<le> length cs"
    by linarith
  then show "((rt, tl xa, ps), rt, c # cs, ps) \<in> measure (\<lambda>(rt, template, ps). length template)"
    by simp
next
  fix rt :: runtime and c :: char and cs :: string and ps :: params
  show "((rt, cs, ps), rt, c # cs, ps) \<in> measure (\<lambda>(rt, template, ps). length template)"
    by simp
qed

definition registry :: "runtime \<Rightarrow> i18n \<Rightarrow> string \<Rightarrow> jsval option" where
  \<comment> \<open>\<^verbatim>\<open>this.translations[locale]\<close>\<close>
  "registry rt st loc =
     (case translations' st loc of
        Some tree \<Rightarrow> Some (Data tree)
      | None \<Rightarrow> prototype rt PlainObject loc)"

definition t :: "runtime \<Rightarrow> i18n \<Rightarrow> string \<Rightarrow> params \<Rightarrow> string option \<Rightarrow> jsval" where
  \<comment> \<open>\<^verbatim>\<open>t(key, params, locale)\<close>; the locale \<open>None\<close> is \<^verbatim>\<open>null\<close>, and the empty string is falsy too\<close>
  "t rt st key ps loc =
     (let targetLocale = (case loc of None \<Rightarrow> locale' st
                          | Some l \<Rightarrow> if l \<noteq> [] then l else locale' st);
          translation = getNestedValue rt (registry rt st targetLocale) key;
          translation =
            (if translation = None \<and> targetLocale \<noteq> fallbackLocale st
             then getNestedValue rt (registry rt st (fallbackLocale st)) key
             else translation)
      in case translation of
           None \<Rightarrow> Data (JStr key)
         | Some v \<Rightarrow>
             (case v of
                Data (JStr s) \<Rightarrow> (if ps \<noteq> [] then Data (JStr (interpolate rt s ps)) else v)
              | _ \<Rightarrow> v))"

definition setLanguage :: "locale_dir \<Rightarrow> i18n \<Rightarrow> string \<Rightarrow> error + (bool \<times> i18n)" where
  "setLanguage dir st loc =
     (if loc = locale' st then Inr (True, st)
      else (case loadLocale dir st loc of
              Inl e \<Rightarrow> Inl e
            | Inr (loaded, st') \<Rightarrow>
                (if loaded \<or> loc = fallbackLocale st'
                 then Inr (True, st'\<lparr>locale' := loc\<rparr>)
                 else Inr (False, st'))))"


section \<open>Numbers: the arithmetic of \<^verbatim>\<open>compareKeys\<close>\<close>

text \<open>
  A JavaScript number is an IEEE 754 double; it is modelled by the rational number that it
  denotes. \<open>to_double\<close> rounds a rational to the nearest double, ties to the even
  mantissa, for the normal range of exponents (no overflow and no subnormal numbers, which
  the quotient of two array lengths cannot reach). Every arithmetic operation gives the
  exact result rounded by \<open>to_double\<close>.
\<close>

definition binary_exponent :: "rat \<Rightarrow> int" where
  \<comment> \<open>for \<open>x > 0\<close>, the \<open>e\<close> with \<open>2 powi e \<le> x < 2 powi (e + 1)\<close>\<close>
  "binary_exponent x =
     (if 1 \<le> x then bitlen \<lfloor>x\<rfloor> - 1 else - bitlen (\<lceil>1 / x\<rceil> - 1))"

definition round_half_even :: "rat \<Rightarrow> int" where
  "round_half_even r =
     (let f = \<lfloor>r\<rfloor>; d = r - of_int f
      in if d < 1 / 2 then f
         else if 1 / 2 < d then f + 1
         else if even f then f else f + 1)"

definition to_double :: "rat \<Rightarrow> rat" where
  "to_double x =
     (if x = 0 then 0
      else (let e = binary_exponent \<bar>x\<bar> - 52
            in sgn x * of_int (round_half_even (\<bar>x\<bar> / 2 powi e)) * 2 powi e))"

definition js_div :: "rat \<Rightarrow> rat \<Rightarrow> rat" where
  \<comment> \<open>\<^verbatim>\<open>a / b\<close> for \<open>b \<noteq> 0\<close>\<close>
  "js_div a b = to_double (a / b)"

definition js_mul :: "rat \<Rightarrow> rat \<Rightarrow> rat" where
  "js_mul a b = to_double (a * b)"

definition toFixed2 :: "rat \<Rightarrow> int" where
  \<comment> \<open>\<^verbatim>\<open>x.toFixed(2)\<close>, read as a number of hundredths: the integer \<open>n\<close> with \<open>n / 100\<close>
      nearest to \<open>x\<close>, the larger one of two (the sign is put back for a negative \<open>x\<close>)\<close>
  "toFixed2 x = (if x < 0 then - \<lfloor>- x * 100 + 1 / 2\<rfloor> else \<lfloor>x * 100 + 1 / 2\<rfloor>)"

definition parseFloat_hundredths :: "int \<Rightarrow> rat" where
  \<comment> \<open>\<^verbatim>\<open>parseFloat\<close> of the decimal text that \<^verbatim>\<open>toFixed(2)\<close> wrote\<close>
  "parseFloat_hundredths n = to_double (of_int n / 100)"


section \<open>The validator (\<^verbatim>\<open>scripts/validate-translations.js\<close>)\<close>

record options =
  strict :: bool
  warnOnly :: bool
  allowMissing :: bool
  generateReport :: bool

record comparison =
  language :: string
  totalKeys :: nat
  missingKeys :: "string list"
  extraKeys :: "string list"
  coverage :: rat
  isComplete :: bool

record results =
  masterKeyCount :: nat
  languages :: "comparison list"

datatype 'a outcome = Exit nat | Throw error | Return 'a
  \<comment> \<open>\<open>Exit c\<close>: the function called \<^verbatim>\<open>process.exit(c)\<close>; \<open>Throw\<close>: it threw\<close>

definition compareKeys :: "string list \<Rightarrow> string list \<Rightarrow> string \<Rightarrow> comparison" where
  "compareKeys masterKeys targetKeys lang =
     (let missing = filter (\<lambda>key. key \<notin> set targetKeys) masterKeys;
          extra = filter (\<lambda>key. key \<notin> set masterKeys) targetKeys;
          cov = (if length masterKeys > 0
                 then parseFloat_hundredths
                        (toFixed2
                          (js_mul
                            (js_div (of_nat (length targetKeys - length extra))
                                    (of_nat (length masterKeys)))
                            100))
                 else 0)
      in \<lparr>language = lang,
          totalKeys = length targetKeys,
          missingKeys = missing,
          extraKeys = extra,
          coverage = cov,
          isComplete = (length missing = 0 \<and> length extra = 0)\<rparr>)"

definition masterFile :: string where
  "masterFile = ''en.json''"

definition endsWith :: "string \<Rightarrow> string \<Rightarrow> bool" where
  "endsWith s suffix \<longleftrightarrow>
     length suffix \<le> length s \<and> drop (length s - length suffix) s = suffix"

definition loadLanguageFile :: "locale_dir \<Rightarrow> string \<Rightarrow> error + json" where
  "loadLanguageFile dir filename =
     (case source_of dir filename of
        Missing \<Rightarrow> Inl (LanguageFileNotFound filename)
      | Unparsable \<Rightarrow> Inl (FailedToParse filename)
      | Parsed tree \<Rightarrow> Inr tree)"

text \<open>
  The loop of \<^verbatim>\<open>validate\<close> over the language files. Whatever is thrown while one file is
  loaded, its keys extracted and compared, is caught and ends the process with code 1.
\<close>

fun validateFiles ::
  "locale_dir \<Rightarrow> string list \<Rightarrow> string list \<Rightarrow> comparison list \<Rightarrow> comparison list outcome"
where
  "validateFiles dir masterKeys [] sofar = Return sofar"
| "validateFiles dir masterKeys (langFile # files) sofar =
     (case loadLanguageFile dir langFile of
        Inl e \<Rightarrow> Exit 1
      | Inr langData \<Rightarrow>
          (case extractKeys langData [] of
             Inl e \<Rightarrow> Exit 1
           | Inr langKeys \<Rightarrow>
               validateFiles dir masterKeys files
                 (sofar @ [compareKeys masterKeys langKeys langFile])))"

definition validate :: "locale_dir \<Rightarrow> results outcome" where
  "validate dir =
     (case loadLanguageFile dir masterFile of
        Inl e \<Rightarrow> Exit 1
      | Inr masterData \<Rightarrow>
          (case extractKeys masterData [] of
             Inl e \<Rightarrow> Exit 1
           | Inr masterKeys \<Rightarrow>
               (case listing dir of
                  None \<Rightarrow> Exit 1
                | Some names \<Rightarrow>
                    (let languageFiles =
                           filter (\<lambda>file. endsWith file ''.json'' \<and> file \<noteq> masterFile) names
                     in if length languageFiles = 0
                        then Return \<lparr>masterKeyCount = length masterKeys, languages = []\<rparr>
                        else (case validateFiles dir masterKeys languageFiles [] of
                                Exit c \<Rightarrow> Exit c
                              | Throw e \<Rightarrow> Throw e
                              | Return langs \<Rightarrow>
                                  Return \<lparr>masterKeyCount = length masterKeys,
                                          languages = langs\<rparr>)))))"

definition hasIssues :: "results \<Rightarrow> bool" where
  "hasIssues res \<longleftrightarrow>
     list_ex (\<lambda>lang. length (missingKeys lang) > 0 \<or> length (extraKeys lang) > 0)
       (languages res)"

definition run :: "options \<Rightarrow> locale_dir \<Rightarrow> bool \<Rightarrow> nat outcome" where
  \<comment> \<open>\<open>writable\<close>: whether \<^verbatim>\<open>writeFileSync\<close> of the report succeeds\<close>
  "run opts dir writable =
     (case validate dir of
        Exit c \<Rightarrow> Exit c
      | Throw e \<Rightarrow> Throw e
      | Return res \<Rightarrow>
          (if generateReport opts \<and> \<not> writable then Throw ReportNotWritten
           else if \<not> hasIssues res then Return 0
           else if allowMissing opts then Return 0
           else if warnOnly opts then Return 0
           else Return 1))"

definition parseOptions :: "string list \<Rightarrow> options" where
  "parseOptions args =
     \<lparr>strict = (''--strict'' \<in> set args),
      warnOnly = (''--warn-only'' \<in> set args),
      allowMissing = (''--allow-missing'' \<in> set args),
      generateReport = (''--report'' \<in> set args)\<rparr>"

definition main :: "string list \<Rightarrow> locale_dir \<Rightarrow> bool \<Rightarrow> error + nat" where
  \<comment> \<open>\<open>args\<close> is \<^verbatim>\<open>process.argv.slice(2)\<close>; \<open>Inr c\<close>: the process ends with exit code \<open>c\<close>;
      \<open>Inl e\<close>: the promise of \<^verbatim>\<open>run\<close> is rejected and nothing handles it\<close>
  "main args dir writable =
     (if ''--help'' \<in> set args \<or> ''-h'' \<in> set args then Inr 0
      else (case run (parseOptions args) dir writable of
              Exit c \<Rightarrow> Inr c
            | Throw e \<Rightarrow> Inl e
            | Return exitCode \<Rightarrow> Inr exitCode))"


section \<open>The lookup of the specification\<close>

text \<open>
  The lookup as the specification describes it: the segments are followed from the root,
  and the path is not found as soon as the current node is not a tree or has no entry for
  the segment.
\<close>

fun spec_lookup :: "json \<Rightarrow> string list \<Rightarrow> json option" where
  "spec_lookup node [] = Some node"
| "spec_lookup node (segment # segments) =
     (case node of
        JObj kvs \<Rightarrow>
          (case map_of kvs segment of
             None \<Rightarrow> None
           | Some child \<Rightarrow> spec_lookup child segments)
      | _ \<Rightarrow> None)"


section \<open>Data of the test suites\<close>

text \<open>
  The locale files that the test suite of the resolver writes (the native name of the
  Japanese file and its translations are kept as ASCII placeholders), and a runtime whose
  prototypes define no property at all: it answers as every JavaScript runtime does for a
  property name that no built-in prototype defines.
\<close>

definition mockEnContent :: json where
  "mockEnContent =
     JObj [(''_meta'', JObj [(''name'', JStr ''English''), (''nativeName'', JStr ''English''),
                             (''direction'', JStr ''ltr'')]),
           (''app'', JObj [(''name'', JStr ''Test App''), (''version'', JStr ''Version {version}'')]),
           (''common'', JObj [(''yes'', JStr ''Yes''), (''no'', JStr ''No'')]),
           (''nested'', JObj [(''deep'', JObj [(''value'', JStr ''Deep nested value'')])])]"

definition mockJaContent :: json where
  "mockJaContent =
     JObj [(''_meta'', JObj [(''name'', JStr ''Japanese''), (''nativeName'', JStr ''Nihongo''),
                             (''direction'', JStr ''ltr'')]),
           (''app'', JObj [(''name'', JStr ''Tesuto Apuri'')]),
           (''common'', JObj [(''yes'', JStr ''Hai'')])]"

definition mockLocalesDir :: locale_dir where
  "mockLocalesDir =
     \<lparr>listing = Some [''en.json'', ''ja.json''],
      source_of = (\<lambda>file. if file = ''en.json'' then Parsed mockEnContent
                           else if file = ''ja.json'' then Parsed mockJaContent
                           else Missing)\<rparr>"

definition mock_en :: i18n where
  \<comment> \<open>the instance \<^verbatim>\<open>new I18n({ localesDir: mockLocalesDir, locale: 'en' })\<close>\<close>
  "mock_en =
     \<lparr>locale' = ''en'', fallbackLocale = ''en'',
      translations' = [''en'' \<mapsto> mockEnContent], loadedLocales = {''en''}\<rparr>"

definition mock_ja :: i18n where
  \<comment> \<open>the instance \<^verbatim>\<open>new I18n({ localesDir: mockLocalesDir, locale: 'ja' })\<close>\<close>
  "mock_ja =
     \<lparr>locale' = ''ja'', fallbackLocale = ''en'',
      translations' = [''ja'' \<mapsto> mockJaContent, ''en'' \<mapsto> mockEnContent],
      loadedLocales = {''ja'', ''en''}\<rparr>"

definition plain_runtime :: runtime where
  "plain_runtime = \<lparr>prototype = (\<lambda>h name. None), toStr = (\<lambda>v. ''[object Object]'')\<rparr>"


section \<open>Facts about the helpers\<close>

lemma findIndex_first:
  "\<forall>a \<in> set pre. \<not> P a \<Longrightarrow> P f \<Longrightarrow> findIndex P (pre @ f # rest) = Some (length pre)"
  by (induction pre) simp_all

lemma findIndex_none: "\<forall>a \<in> set xs. \<not> P a \<Longrightarrow> findIndex P xs = None"
  by (induction xs) simp_all

lemma find_first:
  "\<forall>a \<in> set pre. \<not> P a \<Longrightarrow> P e \<Longrightarrow> find P (pre @ e # rest) = Some e"
  by (induction pre) simp_all

lemma find_none: "\<forall>a \<in> set xs. \<not> P a \<Longrightarrow> find P xs = None"
  by (induction xs) simp_all

lemma str_split_nonempty: "str_split sep s \<noteq> []"
  by (induction s) (auto split: list.splits)

lemma str_split_hd: "hd (str_split sep s) = takeWhile (\<lambda>c. c \<noteq> sep) s"
  by (induction s) (auto split: list.splits simp: str_split_nonempty)

lemma str_split_append:
  "sep \<notin> set w \<Longrightarrow> str_split sep (w @ sep # r) = w # str_split sep r"
  by (induction w) (auto split: list.splits)

lemma str_split_second:
  "sep \<notin> set w \<Longrightarrow>
   at_index (str_split sep (w @ sep # r)) 1 = Some (takeWhile (\<lambda>c. c \<noteq> sep) r)"
proof -
  assume w: "sep \<notin> set w"
  obtain x xs where x: "str_split sep r = x # xs"
    using str_split_nonempty [of sep r] by (cases "str_split sep r") auto
  have "x = takeWhile (\<lambda>c. c \<noteq> sep) r"
    using str_split_hd [of sep r] x by simp
  then show ?thesis
    using w x by (simp add: str_split_append at_index_def)
qed

lemma langAssign_value:
  assumes "e = ''--lang='' @ r \<or> e = ''--language='' @ r"
  shows "at_index (str_split CHR ''='' e) 1 = Some (takeWhile (\<lambda>c. c \<noteq> CHR ''='') r)"
proof -
  have a: "at_index (str_split CHR ''='' (''--lang'' @ CHR ''='' # r)) 1
             = Some (takeWhile (\<lambda>c. c \<noteq> CHR ''='') r)"
    by (rule str_split_second) simp
  have b: "at_index (str_split CHR ''='' (''--language'' @ CHR ''='' # r)) 1
             = Some (takeWhile (\<lambda>c. c \<noteq> CHR ''='') r)"
    by (rule str_split_second) simp
  from assms a b show ?thesis by auto
qed

lemma parse_bare_flag:
  assumes "\<forall>a \<in> set pre. \<not> langFlag a" and "langFlag f" and "v \<noteq> []"
  shows "parseLanguageFromArgs (pre @ f # v # post) = Some v"
  using assms
  by (simp add: parseLanguageFromArgs_def findIndex_first at_index_def nth_append)

lemma parse_no_bare_value:
  assumes "(\<forall>a \<in> set args. \<not> langFlag a)
           \<or> (\<exists>pre f. args = pre @ [f] \<and> (\<forall>a \<in> set pre. \<not> langFlag a) \<and> langFlag f)
           \<or> (\<exists>pre f post. args = pre @ f # [] # post \<and> (\<forall>a \<in> set pre. \<not> langFlag a) \<and> langFlag f)"
  shows "parseLanguageFromArgs args =
           (case find langAssign args of
              Some langArg \<Rightarrow> at_index (str_split CHR ''='' langArg) 1
            | None \<Rightarrow> None)"
proof -
  consider (none) "\<forall>a \<in> set args. \<not> langFlag a"
    | (last) pre f where "args = pre @ [f]" "\<forall>a \<in> set pre. \<not> langFlag a" "langFlag f"
    | (empty) pre f post where "args = pre @ f # [] # post" "\<forall>a \<in> set pre. \<not> langFlag a" "langFlag f"
    using assms by blast
  then show ?thesis
  proof cases
    case none
    then show ?thesis
      by (simp add: parseLanguageFromArgs_def findIndex_none)
  next
    case last
    then show ?thesis
      by (simp add: parseLanguageFromArgs_def findIndex_first at_index_def)
  next
    case empty
    then show ?thesis
      by (simp add: parseLanguageFromArgs_def findIndex_first at_index_def nth_append)
  qed
qed


section \<open>The language hint: which argument wins\<close>

text \<open>
  Claim C9, as the code has it. \<^verbatim>\<open>parseLanguageFromArgs\<close> makes two passes over the
  argument list. The first looks for the first bare flag \<^verbatim>\<open>--lang\<close> or \<^verbatim>\<open>--language\<close>:
  when a non-empty argument follows it, that argument is the result, wherever an
  argument of the form \<^verbatim>\<open>--lang=v\<close> stands. Only when there is no bare flag, or the first
  one is the last argument or is followed by an empty argument, the second pass takes the
  first argument that starts with \<^verbatim>\<open>--lang=\<close> or \<^verbatim>\<open>--language=\<close> and returns the text
  between its first \<^verbatim>\<open>=\<close> and the next one; without such an argument the result is
  \<^verbatim>\<open>null\<close>.
\<close>

theorem parseLanguageFromArgs_two_passes:
  "((\<forall>a \<in> set pre. \<not> langFlag a) \<and> langFlag f \<and> v \<noteq> []
      \<longrightarrow> parseLanguageFromArgs (pre @ f # v # post) = Some v)
   \<and> (((\<forall>a \<in> set args. \<not> langFlag a)
        \<or> (\<exists>p g. args = p @ [g] \<and> (\<forall>a \<in> set p. \<not> langFlag a) \<and> langFlag g)
        \<or> (\<exists>p g q. args = p @ g # [] # q \<and> (\<forall>a \<in> set p. \<not> langFlag a) \<and> langFlag g))
      \<longrightarrow> ((\<forall>a \<in> set args. \<not> langAssign a) \<longrightarrow> parseLanguageFromArgs args = None)
        \<and> (\<forall>before e after r.
              args = before @ e # after \<and> (\<forall>a \<in> set before. \<not> langAssign a)
              \<and> (e = ''--lang='' @ r \<or> e = ''--language='' @ r)
              \<longrightarrow> parseLanguageFromArgs args = Some (takeWhile (\<lambda>c. c \<noteq> CHR ''='') r)))"
proof (intro conjI impI allI)
  assume "(\<forall>a \<in> set pre. \<not> langFlag a) \<and> langFlag f \<and> v \<noteq> []"
  then show "parseLanguageFromArgs (pre @ f # v # post) = Some v"
    by (simp add: parse_bare_flag)
next
  assume bare: "(\<forall>a \<in> set args. \<not> langFlag a)
        \<or> (\<exists>p g. args = p @ [g] \<and> (\<forall>a \<in> set p. \<not> langFlag a) \<and> langFlag g)
        \<or> (\<exists>p g q. args = p @ g # [] # q \<and> (\<forall>a \<in> set p. \<not> langFlag a) \<and> langFlag g)"
    and none: "\<forall>a \<in> set args. \<not> langAssign a"
  show "parseLanguageFromArgs args = None"
    using parse_no_bare_value [OF bare] none by (simp add: find_none)
next
  fix before e after r
  assume bare: "(\<forall>a \<in> set args. \<not> langFlag a)
        \<or> (\<exists>p g. args = p @ [g] \<and> (\<forall>a \<in> set p. \<not> langFlag a) \<and> langFlag g)
        \<or> (\<exists>p g q. args = p @ g # [] # q \<and> (\<forall>a \<in> set p. \<not> langFlag a) \<and> langFlag g)"
    and e: "args = before @ e # after \<and> (\<forall>a \<in> set before. \<not> langAssign a)
              \<and> (e = ''--lang='' @ r \<or> e = ''--language='' @ r)"
  have "langAssign e"
    using e by (auto simp: langAssign_def startsWith_def)
  then have "find langAssign args = Some e"
    using e by (simp add: find_first)
  then show "parseLanguageFromArgs args = Some (takeWhile (\<lambda>c. c \<noteq> CHR ''='') r)"
    using parse_no_bare_value [OF bare] langAssign_value [of e r] e by simp
qed

theorem parseLanguageFromArgs_two_passes_witness:
  "parseLanguageFromArgs ([''node'', ''--lang=es''] @ ''--lang'' # ''ja'' # []) = Some ''ja''
   \<and> parseLanguageFromArgs [''node'', ''script.js'', ''--other-arg''] = None
   \<and> parseLanguageFromArgs ([''node''] @ ''--language=de'' # [''--lang'']) = Some ''de''"
proof -
  note inst = parseLanguageFromArgs_two_passes
    [of "[''node'', ''--lang=es'']" "''--lang''" "''ja''" "[]"]
  have hyp1: "(\<forall>a \<in> set [''node'', ''--lang=es'']. \<not> langFlag a) \<and> langFlag ''--lang'' \<and> ''ja'' \<noteq> []"
    by (simp add: langFlag_def)
  have one: "parseLanguageFromArgs ([''node'', ''--lang=es''] @ ''--lang'' # ''ja'' # []) = Some ''ja''"
    using inst [THEN conjunct1] hyp1 by (rule mp)
  have bare2: "\<forall>a \<in> set [''node'', ''script.js'', ''--other-arg'']. \<not> langFlag a"
    by (simp add: langFlag_def)
  have none2: "\<forall>a \<in> set [''node'', ''script.js'', ''--other-arg'']. \<not> langAssign a"
    by (simp add: langAssign_def startsWith_def)
  have two: "parseLanguageFromArgs [''node'', ''script.js'', ''--other-arg''] = None"
    using inst [of "[''node'', ''script.js'', ''--other-arg'']", THEN conjunct2] bare2 none2
    by blast
  have bare3: "\<exists>p g. [''node''] @ ''--language=de'' # [''--lang''] = p @ [g]
                  \<and> (\<forall>a \<in> set p. \<not> langFlag a) \<and> langFlag g"
    by (rule exI [of _ "[''node'', ''--language=de'']"], rule exI [of _ "''--lang''"])
       (simp add: langFlag_def)
  have split3: "[''node''] @ ''--language=de'' # [''--lang''] = [''node''] @ ''--language=de'' # [''--lang'']
               \<and> (\<forall>a \<in> set [''node'']. \<not> langAssign a)
               \<and> (''--language=de'' = ''--lang='' @ ''de'' \<or> ''--language=de'' = ''--language='' @ ''de'')"
    by (simp add: langAssign_def startsWith_def)
  have "parseLanguageFromArgs ([''node''] @ ''--language=de'' # [''--lang''])
          = Some (takeWhile (\<lambda>c. c \<noteq> CHR ''='') ''de'')"
    using inst [of "[''node''] @ ''--language=de'' # [''--lang'']", THEN conjunct2] bare3 split3
    by blast
  then have three: "parseLanguageFromArgs ([''node''] @ ''--language=de'' # [''--lang'']) = Some ''de''"
    by simp
  from one two three show ?thesis by blast
qed

text \<open>
  Claim C9 as the specification states it says that the first matching argument of the
  list wins. An \<^verbatim>\<open>=\<close> form that comes first loses against a bare flag that comes later.
\<close>

theorem parseLanguageFromArgs_first_match_counterexample:
  "find (\<lambda>a. langFlag a \<or> langAssign a) [''--lang=es'', ''--lang'', ''ja''] = Some ''--lang=es''
   \<and> parseLanguageFromArgs [''--lang=es'', ''--lang'', ''ja''] = Some ''ja''"
  by (simp add: parseLanguageFromArgs_def langFlag_def langAssign_def startsWith_def at_index_def)


section \<open>Key extraction against the paths of the tree\<close>

lemma sort_mset_cong: "mset xs = mset ys \<Longrightarrow> sort xs = sort (ys :: 'a::linorder list)"
  by (rule properties_for_sort) simp_all

lemma extractLoop_prefixed:
  "prefix \<noteq> [] \<Longrightarrow>
   mset (extractLoop kvs prefix) = mset (map (\<lambda>path. prefix @ ''.'' @ path) (spec_keyPaths kvs))"
proof (induction kvs prefix rule: extractLoop.induct)
  case (1 prefix)
  then show ?case by simp
next
  case (2 key val rest prefix)
  show ?case
  proof (cases "startsWith key ''_''")
    case True
    with 2 show ?thesis by simp
  next
    case False
    show ?thesis
    proof (cases val)
      case (JObj kvs)
      have "fullKeyOf prefix key \<noteq> []" using 2 by (simp add: fullKeyOf_def)
      with 2 False JObj show ?thesis
        by (simp add: fullKeyOf_def comp_def)
    qed (use 2 False in \<open>simp_all add: fullKeyOf_def\<close>)
  qed
qed

lemma extractLoop_root:
  "\<forall>kv \<in> set kvs. fst kv = [] \<longrightarrow> (\<forall>sub. snd kv \<noteq> JObj sub) \<Longrightarrow>
   mset (extractLoop kvs []) = mset (spec_keyPaths kvs)"
proof (induction kvs)
  case Nil
  then show ?case by simp
next
  case (Cons kv rest)
  obtain key val where kv: "kv = (key, val)" by (cases kv)
  have rest: "mset (extractLoop rest []) = mset (spec_keyPaths rest)"
    using Cons by simp
  show ?case
  proof (cases val)
    case (JObj sub)
    then have "key \<noteq> []" using Cons.prems kv by auto
    then show ?thesis
      using rest kv JObj by (simp add: fullKeyOf_def extractLoop_prefixed)
  qed (use rest kv in \<open>simp_all add: fullKeyOf_def\<close>)
qed

lemma extractKeys_JObj: "extractKeys (JObj kvs) prefix = Inr (sort (extractLoop kvs prefix))"
  by (simp add: extractKeys_def objectEntries_def)

text \<open>
  Claim C3. \<^verbatim>\<open>extractKeys\<close> is to return the sorted list of the dot-joined key paths from
  the root to every leaf, segments whose name starts with \<^verbatim>\<open>_\<close> being left out at every
  level. The code departs from this for the tree \<^verbatim>\<open>{"": {"a": "x"}}\<close>: the path from the
  root to its leaf is \<^verbatim>\<open>.a\<close>, and \<^verbatim>\<open>extractKeys\<close> returns \<^verbatim>\<open>["a"]\<close>. The full key of the
  segment with the empty name at the root is the empty string, which the test
  \<^verbatim>\<open>prefix ? ... : key\<close> of the next level takes for the absence of a prefix, so that the
  leading dot is lost; for \<^verbatim>\<open>{"": {"a": "x"}, "a": "y"}\<close> the two leaves are listed under one
  name, \<^verbatim>\<open>["a", "a"]\<close>. Below the root the same line joins the empty name as it should:
  \<^verbatim>\<open>{"b": {"": {"z": "x"}}}\<close> gives \<^verbatim>\<open>["b..z"]\<close>.
\<close>

theorem extractKeys_drops_empty_root_segment:
  "spec_keyPaths [([], JObj [(''a'', JStr ''x'')])] = [''.a'']
   \<and> extractKeys (JObj [([], JObj [(''a'', JStr ''x'')])]) [] = Inr [''a'']
   \<and> sort (spec_keyPaths [([], JObj [(''a'', JStr ''x'')]), (''a'', JStr ''y'')]) = [''.a'', ''a'']
   \<and> extractKeys (JObj [([], JObj [(''a'', JStr ''x'')]), (''a'', JStr ''y'')]) []
       = Inr [''a'', ''a'']
   \<and> sort (spec_keyPaths [(''b'', JObj [([], JObj [(''z'', JStr ''x'')])])]) = [''b..z'']
   \<and> extractKeys (JObj [(''b'', JObj [([], JObj [(''z'', JStr ''x'')])])]) [] = Inr [''b..z'']"
  by (simp add: extractKeys_JObj startsWith_def fullKeyOf_def)

text \<open>
  The extent of the defect. For a tree at whose root no segment with the empty name holds
  a nested tree, \<^verbatim>\<open>extractKeys\<close> returns the sorted list of the dot-joined key paths from the
  root to every leaf, where a segment whose name starts with \<^verbatim>\<open>_\<close> is left out at every
  level and a leaf is every value that is not a nested tree (a string, a number, a
  boolean, an array, \<^verbatim>\<open>null\<close>). On \<^verbatim>\<open>{_meta: ..., a: {b: "x"}, c: "y"}\<close> the result is
  \<^verbatim>\<open>["a.b", "c"]\<close>.
\<close>

lemma extractKeys_sorted_key_paths:
  "((\<forall>kv \<in> set kvs. fst kv = [] \<longrightarrow> (\<forall>sub. snd kv \<noteq> JObj sub))
      \<longrightarrow> extractKeys (JObj kvs) [] = Inr (sort (spec_keyPaths kvs))
        \<and> sorted (sort (spec_keyPaths kvs))
        \<and> set (sort (spec_keyPaths kvs)) = set (spec_keyPaths kvs))
   \<and> extractKeys (JObj [(''_meta'', meta), (''a'', JObj [(''b'', JStr ''x'')]), (''c'', JStr ''y'')]) []
        = Inr [''a.b'', ''c'']"
proof (intro conjI impI)
  assume "\<forall>kv \<in> set kvs. fst kv = [] \<longrightarrow> (\<forall>sub. snd kv \<noteq> JObj sub)"
  then have "mset (extractLoop kvs []) = mset (spec_keyPaths kvs)"
    by (rule extractLoop_root)
  then have "sort (extractLoop kvs []) = sort (spec_keyPaths kvs)"
    by (rule sort_mset_cong)
  then show "extractKeys (JObj kvs) [] = Inr (sort (spec_keyPaths kvs))"
    by (simp add: extractKeys_JObj)
next
  show "sorted (sort (spec_keyPaths kvs))"
    by simp
next
  show "set (sort (spec_keyPaths kvs)) = set (spec_keyPaths kvs)"
    by simp
next
  show "extractKeys (JObj [(''_meta'', meta), (''a'', JObj [(''b'', JStr ''x'')]), (''c'', JStr ''y'')]) []
        = Inr [''a.b'', ''c'']"
    by (simp add: extractKeys_JObj startsWith_def fullKeyOf_def)
qed

lemma extractKeys_sorted_key_paths_example:
  "extractKeys (JObj [(''b'', JStr ''v''), ([], JNum 1),
                      (''a'', JObj [(''c'', JNull), (''_x'', JNull), ([], JArr [])])]) []
     = Inr [[], ''a.'', ''a.c'', ''b'']"
  using extractKeys_sorted_key_paths
    [of "[(''b'', JStr ''v''), ([], JNum 1),
          (''a'', JObj [(''c'', JNull), (''_x'', JNull), ([], JArr [])])]" JNull]
  by (simp add: startsWith_def)


section \<open>Subtrees without translation content\<close>

lemma extractLoop_append:
  "extractLoop (xs @ ys) prefix = extractLoop xs prefix @ extractLoop ys prefix"
  by (induction xs prefix rule: extractLoop.induct) simp_all

lemma extractLoop_all_metadata:
  "\<forall>kv \<in> set sub. startsWith (fst kv) ''_'' \<Longrightarrow> extractLoop sub prefix = []"
  by (induction sub) auto

text \<open>
  Claim C10. A segment whose value is a tree without entries, or with entries whose names
  all start with \<^verbatim>\<open>_\<close>, contributes no key path: the loop over this one entry yields
  nothing, not even the segment itself, so that the keys of a tree are the keys of the
  tree without the entry, and a comparison computed from them (missing and extra keys,
  coverage) is the same.
\<close>

theorem empty_subtree_contributes_nothing:
  "(\<forall>kv \<in> set sub. startsWith (fst kv) ''_'')
   \<longrightarrow> extractLoop [(key, JObj sub)] prefix = []
     \<and> extractKeys (JObj (before @ (key, JObj sub) # after)) prefix
         = extractKeys (JObj (before @ after)) prefix
     \<and> map_sum id (\<lambda>targetKeys. compareKeys masterKeys targetKeys lang)
           (extractKeys (JObj (before @ (key, JObj sub) # after)) prefix)
         = map_sum id (\<lambda>targetKeys. compareKeys masterKeys targetKeys lang)
             (extractKeys (JObj (before @ after)) prefix)"
proof
  assume meta: "\<forall>kv \<in> set sub. startsWith (fst kv) ''_''"
  have own: "extractLoop [(key, JObj sub)] prefix = []"
    using extractLoop_all_metadata [OF meta] by simp
  have "extractLoop (before @ (key, JObj sub) # after) prefix
          = extractLoop before prefix @ extractLoop [(key, JObj sub)] prefix
            @ extractLoop after prefix"
    using extractLoop_append [of before "[(key, JObj sub)] @ after" prefix]
          extractLoop_append [of "[(key, JObj sub)]" after prefix]
    by simp
  then have "extractLoop (before @ (key, JObj sub) # after) prefix
          = extractLoop (before @ after) prefix"
    using own by (simp add: extractLoop_append)
  then have same: "extractKeys (JObj (before @ (key, JObj sub) # after)) prefix
         = extractKeys (JObj (before @ after)) prefix"
    by (simp add: extractKeys_JObj)
  from own same
  show "extractLoop [(key, JObj sub)] prefix = []
     \<and> extractKeys (JObj (before @ (key, JObj sub) # after)) prefix
         = extractKeys (JObj (before @ after)) prefix
     \<and> map_sum id (\<lambda>targetKeys. compareKeys masterKeys targetKeys lang)
           (extractKeys (JObj (before @ (key, JObj sub) # after)) prefix)
         = map_sum id (\<lambda>targetKeys. compareKeys masterKeys targetKeys lang)
             (extractKeys (JObj (before @ after)) prefix)"
    by simp
qed

theorem empty_subtree_contributes_nothing_witness:
  "extractLoop [(''empty'', JObj [(''_note'', JStr ''n'')])] [] = []
   \<and> extractKeys (JObj ([(''a'', JStr ''x'')] @ (''empty'', JObj [(''_note'', JStr ''n'')]) # [])) []
       = Inr [''a'']"
proof -
  have meta: "\<forall>kv \<in> set [(''_note'', JStr ''n'')]. startsWith (fst kv) ''_''"
    by (simp add: startsWith_def)
  have "extractKeys (JObj ([(''a'', JStr ''x'')] @ [])) [] = Inr [''a'']"
    by (simp add: extractKeys_JObj startsWith_def fullKeyOf_def)
  then show ?thesis
    using empty_subtree_contributes_nothing
      [of "[(''_note'', JStr ''n'')]" "''empty''" "[]" "[(''a'', JStr ''x'')]" "[]" "[]" "[]"]
      meta
    by simp
qed


section \<open>The lookup finds the paths of the tree\<close>

lemma reducer_follows_spec_lookup:
  "spec_lookup node segments = Some v \<Longrightarrow> segments \<noteq> [] \<Longrightarrow>
   foldl (reducer rt) (Some (Data node)) segments = Some (Data v)"
proof (induction node segments rule: spec_lookup.induct)
  case (1 node)
  then show ?case by simp
next
  case (2 node segment segments)
  then obtain kvs child where node: "node = JObj kvs" and child: "map_of kvs segment = Some child"
    and rest: "spec_lookup child segments = Some v"
    by (auto split: json.splits option.splits)
  have step: "reducer rt (Some (Data node)) segment = Some (Data child)"
    using node child by (simp add: reducer_def property_def)
  show ?case
  proof (cases "segments = []")
    case True
    then show ?thesis using step rest by simp
  next
    case False
    then show ?thesis using 2 node child rest step by simp
  qed
qed

lemma getNestedValue_finds_tree_paths:
  assumes "spec_lookup (JObj kvs) (str_split CHR ''.'' key) = Some v"
  shows "getNestedValue rt (Some (Data (JObj kvs))) key = Some (Data v)"
  using reducer_follows_spec_lookup [OF assms str_split_nonempty]
  by (simp add: getNestedValue_def)

lemma t_found_in_target:
  assumes "loc = None \<and> target = locale' st \<or> loc = Some target \<and> target \<noteq> []"
    and "getNestedValue rt (registry rt st target) key = Some v"
  shows "t rt st key [] loc = v"
proof -
  have "(case loc of None \<Rightarrow> locale' st | Some l \<Rightarrow> if l \<noteq> [] then l else locale' st) = target"
    using assms(1) by auto
  then show ?thesis
    using assms(2) by (cases v) (auto simp: t_def Let_def split: json.splits)
qed

lemma t_returns_target_value:
  assumes "loc = None \<and> target = locale' st \<or> loc = Some target \<and> target \<noteq> []"
    and "translations' st target = Some (JObj kvs)"
    and "spec_lookup (JObj kvs) (str_split CHR ''.'' key) = Some v"
  shows "t rt st key [] loc = Data v"
proof -
  have "getNestedValue rt (registry rt st target) key = Some (Data v)"
    using getNestedValue_finds_tree_paths [OF assms(3)] assms(2) by (simp add: registry_def)
  then show ?thesis
    using t_found_in_target [OF assms(1)] by simp
qed


section \<open>Every extracted key path resolves\<close>

lemma str_split_no_sep: "sep \<notin> set w \<Longrightarrow> str_split sep w = [w]"
  by (induction w) auto

lemma spec_keyPaths_elem:
  "path \<in> set (spec_keyPaths kvs) \<Longrightarrow>
   \<exists>key val. (key, val) \<in> set kvs \<and>
     ((\<exists>sub rest. val = JObj sub \<and> rest \<in> set (spec_keyPaths sub) \<and> path = key @ ''.'' @ rest)
      \<or> ((\<forall>sub. val \<noteq> JObj sub) \<and> path = key))"
proof (induction kvs)
  case Nil
  then show ?case by simp
next
  case (Cons kv rest)
  obtain key val where kv: "kv = (key, val)" by (cases kv)
  show ?case
  proof (cases "path \<in> set (spec_keyPaths rest)")
    case True
    then obtain k v where "(k, v) \<in> set rest"
      "(\<exists>sub r. v = JObj sub \<and> r \<in> set (spec_keyPaths sub) \<and> path = k @ ''.'' @ r)
        \<or> ((\<forall>sub. v \<noteq> JObj sub) \<and> path = k)"
      using Cons.IH by blast
    then show ?thesis
      by (intro exI [of _ k] exI [of _ v]) simp
  next
    case False
    then have head: "\<not> startsWith key ''_''"
      "path \<in> set (case val of JObj sub \<Rightarrow> map (\<lambda>p. key @ ''.'' @ p) (spec_keyPaths sub)
                                | _ \<Rightarrow> [key])"
      using Cons.prems kv by (auto split: if_splits)
    have "(\<exists>sub r. val = JObj sub \<and> r \<in> set (spec_keyPaths sub) \<and> path = key @ ''.'' @ r)
        \<or> ((\<forall>sub. val \<noteq> JObj sub) \<and> path = key)"
      using head(2) by (cases val) auto
    then show ?thesis
      using kv by (intro exI [of _ key] exI [of _ val]) simp
  qed
qed

lemma key_path_leads_to_leaf:
  "wf_json v \<Longrightarrow> dotless v \<Longrightarrow> v = JObj kvs \<Longrightarrow> path \<in> set (spec_keyPaths kvs) \<Longrightarrow>
   \<exists>leaf. spec_lookup v (str_split CHR ''.'' path) = Some leaf"
proof (induction v arbitrary: kvs path)
  case (JObj entries)
  then have kvs: "entries = kvs" by simp
  obtain key val where mem: "(key, val) \<in> set kvs"
    and shape: "(\<exists>sub rest. val = JObj sub \<and> rest \<in> set (spec_keyPaths sub) \<and> path = key @ ''.'' @ rest)
      \<or> ((\<forall>sub. val \<noteq> JObj sub) \<and> path = key)"
    using spec_keyPaths_elem [OF JObj.prems(4)] by blast
  have dist: "distinct (map fst kvs)" using JObj.prems(1) kvs by simp
  have nodot: "CHR ''.'' \<notin> set key" using JObj.prems(2) kvs mem by auto
  have entry: "map_of kvs key = Some val"
    using dist mem by simp
  from shape show ?case
  proof
    assume "\<exists>sub rest. val = JObj sub \<and> rest \<in> set (spec_keyPaths sub) \<and> path = key @ ''.'' @ rest"
    then obtain sub rest where val: "val = JObj sub"
      and rest: "rest \<in> set (spec_keyPaths sub)" and path: "path = key @ ''.'' @ rest"
      by blast
    have "wf_json val" "dotless val" using JObj.prems(1,2) kvs mem by auto
    moreover have "val \<in> Basic_BNFs.snds (key, val)" by simp
    ultimately obtain leaf where
      "spec_lookup val (str_split CHR ''.'' rest) = Some leaf"
      using JObj.IH [of "(key, val)" val sub rest] mem kvs val rest by blast
    then show ?thesis
      using entry path nodot kvs by (simp add: str_split_append)
  next
    assume "(\<forall>sub. val \<noteq> JObj sub) \<and> path = key"
    then show ?thesis
      using entry nodot kvs by (simp add: str_split_no_sep)
  qed
qed simp_all

lemma extractKeys_root_set:
  assumes "\<forall>kv \<in> set kvs. fst kv = [] \<longrightarrow> (\<forall>sub. snd kv \<noteq> JObj sub)"
    and "extractKeys (JObj kvs) [] = Inr paths"
  shows "set paths = set (spec_keyPaths kvs)"
proof -
  have "mset paths = mset (extractLoop kvs [])"
    using assms(2) by (auto simp: extractKeys_JObj)
  then have "mset paths = mset (spec_keyPaths kvs)"
    using extractLoop_root [OF assms(1)] by simp
  then show ?thesis
    by (rule mset_eq_setD)
qed

text \<open>
  Claim C8. Every key path that \<^verbatim>\<open>extractKeys\<close> returns for a tree whose segment names
  contain no dot is to resolve through \<^verbatim>\<open>getNestedValue\<close>, and so through \<^verbatim>\<open>t\<close>, when the
  tree is the one of the target locale. The code departs from this for the tree
  \<^verbatim>\<open>{"": {"a": "x"}}\<close>, whose segment names contain no dot: \<^verbatim>\<open>extractKeys\<close> returns the key
  path \<^verbatim>\<open>a\<close>, which leads to no value in the tree; in a runtime in which plain objects
  inherit no property \<^verbatim>\<open>a\<close>, \<^verbatim>\<open>getNestedValue\<close> finds nothing for it and \<^verbatim>\<open>t\<close> returns the key
  path \<^verbatim>\<open>a\<close>. The lookup is not at fault: in every runtime it resolves the path \<^verbatim>\<open>.a\<close> of
  the leaf to \<^verbatim>\<open>x\<close>, and so does \<^verbatim>\<open>t\<close>. It is \<^verbatim>\<open>extractKeys\<close> that loses the leading dot of the
  path, at the root only: for \<^verbatim>\<open>{"b": {"": {"z": "x"}}}\<close> it returns \<^verbatim>\<open>b..z\<close>, which \<^verbatim>\<open>t\<close>
  resolves to \<^verbatim>\<open>x\<close>.
\<close>

theorem extracted_path_of_empty_root_segment_unresolved:
  "dotless (JObj [([], JObj [(''a'', JStr ''x'')])])
   \<and> wf_json (JObj [([], JObj [(''a'', JStr ''x'')])])
   \<and> extractKeys (JObj [([], JObj [(''a'', JStr ''x'')])]) [] = Inr [''a'']
   \<and> spec_lookup (JObj [([], JObj [(''a'', JStr ''x'')])]) (str_split CHR ''.'' ''a'') = None
   \<and> (prototype rt PlainObject ''a'' = None \<longrightarrow>
        getNestedValue rt
          (registry rt
             \<lparr>locale' = ''en'', fallbackLocale = ''en'',
              translations' = [''en'' \<mapsto> JObj [([], JObj [(''a'', JStr ''x'')])]],
              loadedLocales = {''en''}\<rparr> ''en'') ''a'' = None
        \<and> t rt
            \<lparr>locale' = ''en'', fallbackLocale = ''en'',
             translations' = [''en'' \<mapsto> JObj [([], JObj [(''a'', JStr ''x'')])]],
             loadedLocales = {''en''}\<rparr> ''a'' [] None = Data (JStr ''a''))
   \<and> spec_lookup (JObj [([], JObj [(''a'', JStr ''x'')])]) (str_split CHR ''.'' ''.a'')
       = Some (JStr ''x'')
   \<and> getNestedValue rt
        (registry rt
           \<lparr>locale' = ''en'', fallbackLocale = ''en'',
            translations' = [''en'' \<mapsto> JObj [([], JObj [(''a'', JStr ''x'')])]],
            loadedLocales = {''en''}\<rparr> ''en'') ''.a'' = Some (Data (JStr ''x''))
   \<and> t rt
        \<lparr>locale' = ''en'', fallbackLocale = ''en'',
         translations' = [''en'' \<mapsto> JObj [([], JObj [(''a'', JStr ''x'')])]],
         loadedLocales = {''en''}\<rparr> ''.a'' [] None = Data (JStr ''x'')
   \<and> extractKeys (JObj [(''b'', JObj [([], JObj [(''z'', JStr ''x'')])])]) [] = Inr [''b..z'']
   \<and> t rt
        \<lparr>locale' = ''en'', fallbackLocale = ''en'',
         translations' = [''en'' \<mapsto> JObj [(''b'', JObj [([], JObj [(''z'', JStr ''x'')])])]],
         loadedLocales = {''en''}\<rparr> ''b..z'' [] None = Data (JStr ''x'')"
  by (simp add: extractKeys_JObj startsWith_def fullKeyOf_def getNestedValue_def registry_def
      reducer_def property_def t_def)

theorem extracted_path_of_empty_root_segment_unresolved_witness:
  "extractKeys (JObj [([], JObj [(''a'', JStr ''x'')])]) [] = Inr [''a'']
   \<and> prototype plain_runtime PlainObject ''a'' = None
   \<and> getNestedValue plain_runtime
        (registry plain_runtime
           \<lparr>locale' = ''en'', fallbackLocale = ''en'',
            translations' = [''en'' \<mapsto> JObj [([], JObj [(''a'', JStr ''x'')])]],
            loadedLocales = {''en''}\<rparr> ''en'') ''a'' = None
   \<and> t plain_runtime
        \<lparr>locale' = ''en'', fallbackLocale = ''en'',
         translations' = [''en'' \<mapsto> JObj [([], JObj [(''a'', JStr ''x'')])]],
         loadedLocales = {''en''}\<rparr> ''a'' [] None = Data (JStr ''a'')"
proof -
  have p: "prototype plain_runtime PlainObject ''a'' = None"
    by (simp add: plain_runtime_def)
  note inst = extracted_path_of_empty_root_segment_unresolved [of plain_runtime]
  have keys: "extractKeys (JObj [([], JObj [(''a'', JStr ''x'')])]) [] = Inr [''a'']"
    by (rule inst [THEN conjunct2, THEN conjunct2, THEN conjunct1])
  have "getNestedValue plain_runtime
        (registry plain_runtime
           \<lparr>locale' = ''en'', fallbackLocale = ''en'',
            translations' = [''en'' \<mapsto> JObj [([], JObj [(''a'', JStr ''x'')])]],
            loadedLocales = {''en''}\<rparr> ''en'') ''a'' = None
   \<and> t plain_runtime
        \<lparr>locale' = ''en'', fallbackLocale = ''en'',
         translations' = [''en'' \<mapsto> JObj [([], JObj [(''a'', JStr ''x'')])]],
         loadedLocales = {''en''}\<rparr> ''a'' [] None = Data (JStr ''a'')"
    by (rule mp [OF inst [THEN conjunct2, THEN conjunct2, THEN conjunct2, THEN conjunct2,
          THEN conjunct1] p])
  with keys p show ?thesis by blast
qed

text \<open>
  The extent of the defect. Take a locale tree whose segment names contain no dot and at
  whose root no segment with the empty name holds a nested tree, and a resolver whose
  target locale (the current locale, or the locale given to \<^verbatim>\<open>t\<close>) holds that tree. Then
  every key path that \<^verbatim>\<open>extractKeys\<close> returns for the tree leads to a value in the tree, the
  lookup finds this value, and \<^verbatim>\<open>t\<close> returns it and not the key path of the ultimate
  fallback.
\<close>

lemma extracted_paths_resolve:
  "translations' st target = Some (JObj kvs)
   \<and> (loc = None \<and> target = locale' st \<or> loc = Some target \<and> target \<noteq> [])
   \<and> wf_json (JObj kvs) \<and> dotless (JObj kvs)
   \<and> (\<forall>kv \<in> set kvs. fst kv = [] \<longrightarrow> (\<forall>sub. snd kv \<noteq> JObj sub))
   \<and> extractKeys (JObj kvs) [] = Inr paths \<and> path \<in> set paths
   \<longrightarrow> (\<exists>leaf. spec_lookup (JObj kvs) (str_split CHR ''.'' path) = Some leaf
            \<and> getNestedValue rt (registry rt st target) path = Some (Data leaf)
            \<and> t rt st path [] loc = Data leaf)"
proof
  assume a: "translations' st target = Some (JObj kvs)
   \<and> (loc = None \<and> target = locale' st \<or> loc = Some target \<and> target \<noteq> [])
   \<and> wf_json (JObj kvs) \<and> dotless (JObj kvs)
   \<and> (\<forall>kv \<in> set kvs. fst kv = [] \<longrightarrow> (\<forall>sub. snd kv \<noteq> JObj sub))
   \<and> extractKeys (JObj kvs) [] = Inr paths \<and> path \<in> set paths"
  then have "path \<in> set (spec_keyPaths kvs)"
    using extractKeys_root_set [of kvs paths] by blast
  then obtain leaf where leaf: "spec_lookup (JObj kvs) (str_split CHR ''.'' path) = Some leaf"
    using key_path_leads_to_leaf [of "JObj kvs" kvs path] a by blast
  then have found: "getNestedValue rt (registry rt st target) path = Some (Data leaf)"
    using getNestedValue_finds_tree_paths [of kvs path leaf rt] a by (simp add: registry_def)
  moreover have "t rt st path [] loc = Data leaf"
    using t_found_in_target [OF _ found] a by blast
  ultimately show "\<exists>leaf. spec_lookup (JObj kvs) (str_split CHR ''.'' path) = Some leaf
            \<and> getNestedValue rt (registry rt st target) path = Some (Data leaf)
            \<and> t rt st path [] loc = Data leaf"
    using leaf by blast
qed

lemma extracted_paths_resolve_example:
  "getNestedValue plain_runtime (registry plain_runtime mock_ja ''ja'') ''common.yes''
     = Some (Data (JStr ''Hai''))
   \<and> t plain_runtime mock_ja ''common.yes'' [] None = Data (JStr ''Hai'')"
proof -
  have keys: "extractKeys mockJaContent [] = Inr [''app.name'', ''common.yes'']"
    by (simp add: mockJaContent_def extractKeys_JObj startsWith_def fullKeyOf_def)
  have hyp: "translations' mock_ja ''ja''
       = Some (JObj [(''_meta'', JObj [(''name'', JStr ''Japanese''), (''nativeName'', JStr ''Nihongo''),
                             (''direction'', JStr ''ltr'')]),
           (''app'', JObj [(''name'', JStr ''Tesuto Apuri'')]),
           (''common'', JObj [(''yes'', JStr ''Hai'')])])
   \<and> (None = None \<and> ''ja'' = locale' mock_ja \<or> None = Some ''ja'' \<and> ''ja'' \<noteq> [])
   \<and> wf_json mockJaContent \<and> dotless mockJaContent
   \<and> (\<forall>kv \<in> set [(''_meta'', JObj [(''name'', JStr ''Japanese''), (''nativeName'', JStr ''Nihongo''),
                             (''direction'', JStr ''ltr'')]),
           (''app'', JObj [(''name'', JStr ''Tesuto Apuri'')]),
           (''common'', JObj [(''yes'', JStr ''Hai'')])]. fst kv = [] \<longrightarrow> (\<forall>sub. snd kv \<noteq> JObj sub))
   \<and> extractKeys mockJaContent [] = Inr [''app.name'', ''common.yes'']
   \<and> ''common.yes'' \<in> set [''app.name'', ''common.yes'']"
    using keys by (simp add: mock_ja_def mockJaContent_def)
  obtain leaf where leaf:
    "getNestedValue plain_runtime (registry plain_runtime mock_ja ''ja'') ''common.yes''
       = Some (Data leaf)"
    "t plain_runtime mock_ja ''common.yes'' [] None = Data leaf"
    using extracted_paths_resolve
      [of mock_ja "''ja''" _ None "[''app.name'', ''common.yes'']" "''common.yes''" plain_runtime]
      hyp
    unfolding mockJaContent_def by blast
  have "getNestedValue plain_runtime (registry plain_runtime mock_ja ''ja'') ''common.yes''
     = Some (Data (JStr ''Hai''))"
    by (simp add: getNestedValue_def registry_def mock_ja_def mockJaContent_def reducer_def
        property_def)
  then show ?thesis using leaf by simp
qed


section \<open>Parameter substitution\<close>





lemma t_result:
  assumes "loc = None \<and> target = locale' st \<or> loc = Some target \<and> target \<noteq> []"
    and "resolved = (if getNestedValue rt (registry rt st target) key = None
                        \<and> target \<noteq> fallbackLocale st
                     then getNestedValue rt (registry rt st (fallbackLocale st)) key
                     else getNestedValue rt (registry rt st target) key)"
  shows "t rt st key ps loc =
           (case resolved of
              None \<Rightarrow> Data (JStr key)
            | Some v \<Rightarrow>
                (case v of
                   Data (JStr s) \<Rightarrow> (if ps \<noteq> [] then Data (JStr (interpolate rt s ps)) else v)
                 | _ \<Rightarrow> v))"
proof -
  have "(case loc of None \<Rightarrow> locale' st | Some l \<Rightarrow> if l \<noteq> [] then l else locale' st) = target"
    using assms(1) by auto
  then show ?thesis
    using assms(2) by (simp add: t_def Let_def)
qed





section \<open>Lookups that reach a string leaf\<close>

lemma t_returns_fallback_value:
  assumes "loc = None \<and> target = locale' st \<or> loc = Some target \<and> target \<noteq> []"
    and "getNestedValue rt (registry rt st target) key = None"
    and "target \<noteq> fallbackLocale st"
    and "translations' st (fallbackLocale st) = Some (JObj kvs)"
    and "spec_lookup (JObj kvs) (str_split CHR ''.'' key) = Some v"
  shows "t rt st key [] loc = Data v"
proof -
  have "getNestedValue rt (registry rt st (fallbackLocale st)) key = Some (Data v)"
    using getNestedValue_finds_tree_paths [OF assms(5)] assms(4) by (simp add: registry_def)
  then show ?thesis
    using t_result [OF assms(1) refl, of rt key "[]"] assms(2,3)
    by (auto split: json.splits)
qed

lemma t_returns_key_path:
  assumes "loc = None \<and> target = locale' st \<or> loc = Some target \<and> target \<noteq> []"
    and "getNestedValue rt (registry rt st target) key = None"
    and "target = fallbackLocale st
         \<or> getNestedValue rt (registry rt st (fallbackLocale st)) key = None"
  shows "t rt st key ps loc = Data (JStr key)"
  using t_result [OF assms(1) refl, of rt key ps] assms(2,3) by auto

text \<open>
  Claim C4 says that the lookup yields "not found" as soon as the current node is not a
  tree, and that no value comes from indexing into a string leaf. The callback of the
  reduction tests only whether the current value is truthy, so a non-empty string leaf is
  indexed: behind the path of the leaf \<^verbatim>\<open>nested.deep.value\<close>, where the lookup of the
  specification finds nothing, a further segment \<^verbatim>\<open>0\<close> finds the first character of the leaf
  and a further segment \<^verbatim>\<open>length\<close> its length, in every runtime.
\<close>

theorem getNestedValue_indexes_string_leaf:
  "spec_lookup mockEnContent (str_split CHR ''.'' ''nested.deep.value.0'') = None
   \<and> getNestedValue rt (Some (Data mockEnContent)) ''nested.deep.value.0''
     = Some (Data (JStr ''D''))
   \<and> spec_lookup mockEnContent (str_split CHR ''.'' ''nested.deep.value.length'') = None
   \<and> getNestedValue rt (Some (Data mockEnContent)) ''nested.deep.value.length''
     = Some (Data (JNum 17))"
  by (simp add: getNestedValue_def mockEnContent_def reducer_def property_def index_of_def
      string_of_nat.simps)

theorem getNestedValue_indexes_string_leaf_witness:
  "getNestedValue plain_runtime (Some (Data mockEnContent)) ''nested.deep.value.length''
     = Some (Data (JNum 17))"
  using getNestedValue_indexes_string_leaf [of plain_runtime] by simp

text \<open>
  Claim C1 says that \<^verbatim>\<open>t\<close> returns the key path when the path resolves neither in the tree
  of the target locale nor in the tree of the fallback locale. In the instance that the
  test suite constructs for the locale \<^verbatim>\<open>en\<close>, which is its own fallback, the key path
  \<^verbatim>\<open>app.name.length\<close> resolves to nothing in the tree, yet \<^verbatim>\<open>t\<close> returns the number 8,
  the length of the leaf \<^verbatim>\<open>app.name\<close>, in every runtime.
\<close>

theorem t_returns_length_of_string_leaf:
  "new_I18n mockLocalesDir ''en'' ''en'' = Inr mock_en
   \<and> translations' mock_en ''en'' = Some mockEnContent
   \<and> spec_lookup mockEnContent (str_split CHR ''.'' ''app.name.length'') = None
   \<and> t rt mock_en ''app.name.length'' [] None = Data (JNum 8)"
  by (simp add: new_I18n_def loadLocale_def mockLocalesDir_def t_def registry_def mock_en_def
      getNestedValue_def mockEnContent_def reducer_def property_def)

theorem t_returns_length_of_string_leaf_witness:
  "t plain_runtime mock_en ''app.name.length'' [] None = Data (JNum 8)"
  using t_returns_length_of_string_leaf [of plain_runtime] by simp


section \<open>Switching the locale\<close>

lemma loadLocale_false:
  "loadLocale dir st loc = Inr (False, st') \<Longrightarrow> st' = st \<and> loc \<noteq> fallbackLocale st"
  by (auto simp: loadLocale_def split: if_splits source.splits)

lemma setLanguage_again:
  assumes "setLanguage dir st loc = Inr (b, st1)"
  shows "setLanguage dir st1 loc = Inr (b, st1)"
proof (cases "loc = locale' st")
  case True
  then show ?thesis using assms by (auto simp: setLanguage_def)
next
  case False
  show ?thesis
  proof (cases "loadLocale dir st loc")
    case (Inl e)
    then show ?thesis using assms False by (simp add: setLanguage_def)
  next
    case (Inr r)
    obtain loaded st' where r: "r = (loaded, st')" by (cases r)
    show ?thesis
    proof (cases loaded)
      case True
      then have "st1 = st'\<lparr>locale' := loc\<rparr>" "b"
        using assms False Inr r by (auto simp: setLanguage_def)
      then show ?thesis by (simp add: setLanguage_def)
    next
      case no: False
      then have same: "st' = st" "loc \<noteq> fallbackLocale st"
        using loadLocale_false [of dir st loc st'] Inr r by auto
      then have "st1 = st" "\<not> b"
        using assms False Inr r no by (auto simp: setLanguage_def)
      then show ?thesis using assms by simp
    qed
  qed
qed

text \<open>
  Claim C6, as the code has it. \<^verbatim>\<open>setLanguage(x)\<close> returns true and changes nothing when
  \<open>x\<close> is the current locale. Otherwise it calls the loader: when the loader returns true,
  \<open>x\<close> becomes the current locale of the state that the loader left, and the result is
  true (so it is for the fallback locale whenever that is loaded); when the loader returns
  false, which it never does for the fallback locale, the state is unchanged and the
  result is false; when the loader throws, the error goes to the caller. A second call
  with the same \<open>x\<close> returns what the first call returned and leaves the state as the first
  call left it: true both times when the first call returns true, false both times when
  it returns false.
\<close>

theorem setLanguage_outcomes:
  "(loc = locale' st \<longrightarrow> setLanguage dir st loc = Inr (True, st))
   \<and> (loc \<noteq> locale' st \<and> loadLocale dir st loc = Inr (True, st')
      \<longrightarrow> setLanguage dir st loc = Inr (True, st'\<lparr>locale' := loc\<rparr>))
   \<and> (loc \<noteq> locale' st \<and> loadLocale dir st loc = Inr (False, st')
      \<longrightarrow> loc \<noteq> fallbackLocale st \<and> setLanguage dir st loc = Inr (False, st))
   \<and> (loc \<noteq> locale' st \<and> loadLocale dir st loc = Inl e \<longrightarrow> setLanguage dir st loc = Inl e)
   \<and> (loc = fallbackLocale st \<and> loc \<in> loadedLocales st
      \<longrightarrow> setLanguage dir st loc = Inr (True, st\<lparr>locale' := loc\<rparr>))
   \<and> (setLanguage dir st loc = Inr (b, st1) \<longrightarrow> setLanguage dir st1 loc = Inr (b, st1))"
proof (intro conjI impI)
  assume "loc = locale' st"
  then show "setLanguage dir st loc = Inr (True, st)"
    by (simp add: setLanguage_def)
next
  assume "loc \<noteq> locale' st \<and> loadLocale dir st loc = Inr (True, st')"
  then show "setLanguage dir st loc = Inr (True, st'\<lparr>locale' := loc\<rparr>)"
    by (simp add: setLanguage_def)
next
  assume a: "loc \<noteq> locale' st \<and> loadLocale dir st loc = Inr (False, st')"
  then show "loc \<noteq> fallbackLocale st"
    using loadLocale_false [of dir st loc st'] by simp
next
  assume a: "loc \<noteq> locale' st \<and> loadLocale dir st loc = Inr (False, st')"
  then have "st' = st" "loc \<noteq> fallbackLocale st"
    using loadLocale_false [of dir st loc st'] by simp_all
  then show "setLanguage dir st loc = Inr (False, st)"
    using a by (simp add: setLanguage_def)
next
  assume "loc \<noteq> locale' st \<and> loadLocale dir st loc = Inl e"
  then show "setLanguage dir st loc = Inl e"
    by (simp add: setLanguage_def)
next
  assume "loc = fallbackLocale st \<and> loc \<in> loadedLocales st"
  then show "setLanguage dir st loc = Inr (True, st\<lparr>locale' := loc\<rparr>)"
    by (auto simp: setLanguage_def loadLocale_def)
next
  assume "setLanguage dir st loc = Inr (b, st1)"
  then show "setLanguage dir st1 loc = Inr (b, st1)"
    by (rule setLanguage_again)
qed

theorem setLanguage_outcomes_witness:
  "setLanguage mockLocalesDir mock_en ''en'' = Inr (True, mock_en)
   \<and> setLanguage mockLocalesDir mock_en ''ja'' = Inr (True, mock_ja)
   \<and> setLanguage mockLocalesDir mock_ja ''ja'' = Inr (True, mock_ja)
   \<and> setLanguage mockLocalesDir mock_ja ''en'' = Inr (True, mock_ja\<lparr>locale' := ''en''\<rparr>)
   \<and> setLanguage mockLocalesDir mock_ja ''fr'' = Inr (False, mock_ja)
   \<and> setLanguage \<lparr>listing = Some [''fr.json''], source_of = (\<lambda>file. Unparsable)\<rparr> mock_ja ''fr''
       = Inl (FailedToLoadLocale ''fr'')"
proof -
  have load_ja: "loadLocale mockLocalesDir mock_en ''ja'' = Inr (True, mock_ja\<lparr>locale' := ''en''\<rparr>)"
    by (simp add: loadLocale_def mockLocalesDir_def mock_en_def mock_ja_def
        fun_upd_twist insert_commute)
  have load_fr: "loadLocale mockLocalesDir mock_ja ''fr'' = Inr (False, mock_ja)"
    by (simp add: loadLocale_def mockLocalesDir_def mock_ja_def)
  have load_bad: "loadLocale \<lparr>listing = Some [''fr.json''], source_of = (\<lambda>file. Unparsable)\<rparr>
                    mock_ja ''fr'' = Inl (FailedToLoadLocale ''fr'')"
    by (simp add: loadLocale_def mock_ja_def)
  have same: "setLanguage mockLocalesDir mock_en ''en'' = Inr (True, mock_en)"
    using setLanguage_outcomes [where loc = "''en''" and st = mock_en and dir = mockLocalesDir]
    by (simp add: mock_en_def)
  have first: "setLanguage mockLocalesDir mock_en ''ja'' = Inr (True, mock_ja)"
    using setLanguage_outcomes
      [where loc = "''ja''" and st = mock_en and dir = mockLocalesDir
         and st' = "mock_ja\<lparr>locale' := ''en''\<rparr>"]
      load_ja
    by (simp add: mock_en_def mock_ja_def)
  have again: "setLanguage mockLocalesDir mock_ja ''ja'' = Inr (True, mock_ja)"
    using setLanguage_outcomes
      [where loc = "''ja''" and st = mock_en and dir = mockLocalesDir and b = True
         and ?st1.0 = mock_ja]
      first
    by blast
  have fallback: "setLanguage mockLocalesDir mock_ja ''en'' = Inr (True, mock_ja\<lparr>locale' := ''en''\<rparr>)"
    using setLanguage_outcomes [where loc = "''en''" and st = mock_ja and dir = mockLocalesDir]
    by (simp add: mock_ja_def)
  have soft: "setLanguage mockLocalesDir mock_ja ''fr'' = Inr (False, mock_ja)"
    using setLanguage_outcomes
      [where loc = "''fr''" and st = mock_ja and dir = mockLocalesDir and st' = mock_ja]
      load_fr
    by (simp add: mock_ja_def)
  have fatal: "setLanguage \<lparr>listing = Some [''fr.json''], source_of = (\<lambda>file. Unparsable)\<rparr>
                 mock_ja ''fr'' = Inl (FailedToLoadLocale ''fr'')"
    using setLanguage_outcomes
      [where loc = "''fr''" and st = mock_ja and e = "FailedToLoadLocale ''fr''"
         and dir = "\<lparr>listing = Some [''fr.json''], source_of = (\<lambda>file. Unparsable)\<rparr>"]
      load_bad
    by (simp add: mock_ja_def)
  from same first again fallback soft fatal show ?thesis by blast
qed

text \<open>
  Claim C6 as the specification states it ends: called twice with the same \<open>x\<close>,
  \<^verbatim>\<open>setLocale\<close> returns true both times, for every \<open>x\<close>. For a locale without a file the
  first call returns false and leaves the state as it was, so the second call is the first
  call again.
\<close>

theorem setLanguage_twice_counterexample:
  "setLanguage mockLocalesDir mock_en ''invalid'' = Inr (False, mock_en)"
  by (simp add: setLanguage_def loadLocale_def mockLocalesDir_def mock_en_def)


section \<open>The exit code of the validator\<close>

lemma validateFiles_outcome:
  "(\<exists>langs. validateFiles dir masterKeys files sofar = Return langs)
   \<or> validateFiles dir masterKeys files sofar = Exit 1"
  by (induction files arbitrary: sofar) (auto split: sum.splits)

lemma validate_outcome: "(\<exists>res. validate dir = Return res) \<or> validate dir = Exit 1"
proof (cases "loadLanguageFile dir masterFile")
  case (Inl e)
  then show ?thesis by (simp add: validate_def)
next
  case master: (Inr masterData)
  show ?thesis
  proof (cases "extractKeys masterData []")
    case (Inl e)
    then show ?thesis using master by (simp add: validate_def)
  next
    case keys: (Inr masterKeys)
    show ?thesis
    proof (cases "listing dir")
      case None
      then show ?thesis using master keys by (simp add: validate_def)
    next
      case (Some names)
      let ?files = "filter (\<lambda>file. endsWith file ''.json'' \<and> file \<noteq> masterFile) names"
      from validateFiles_outcome [of dir masterKeys ?files "[]"]
      show ?thesis
        using master keys Some by (auto simp: validate_def Let_def)
    qed
  qed
qed

text \<open>
  Claim C7, as the code has it. For a run without \<^verbatim>\<open>--help\<close> in which \<^verbatim>\<open>validate\<close> returns its
  results, that is every source is loaded, parsed and its keys extracted, and in which the
  report, when requested, is written: the exit code is 1 when at least one target has
  missing or extra keys and neither \<^verbatim>\<open>--warn-only\<close> nor \<^verbatim>\<open>--allow-missing\<close> is given, and 0
  otherwise. A run in which \<^verbatim>\<open>validate\<close> does not return, because a source cannot be
  loaded, ends with exit code 1 in every mode.
\<close>

theorem exit_code_contract:
  "(''--help'' \<notin> set args \<and> ''-h'' \<notin> set args \<longrightarrow>
      (validate dir = Return res \<and> (''--report'' \<in> set args \<longrightarrow> writable)
         \<longrightarrow> main args dir writable
              = Inr (if hasIssues res \<and> ''--warn-only'' \<notin> set args
                        \<and> ''--allow-missing'' \<notin> set args
                     then 1 else 0))
      \<and> ((\<forall>r. validate dir \<noteq> Return r) \<longrightarrow> main args dir writable = Inr 1))
   \<and> (hasIssues res \<longleftrightarrow>
        (\<exists>lang \<in> set (languages res). missingKeys lang \<noteq> [] \<or> extraKeys lang \<noteq> []))"
proof (intro conjI impI)
  assume "''--help'' \<notin> set args \<and> ''-h'' \<notin> set args"
    and "validate dir = Return res \<and> (''--report'' \<in> set args \<longrightarrow> writable)"
  then show "main args dir writable
              = Inr (if hasIssues res \<and> ''--warn-only'' \<notin> set args
                        \<and> ''--allow-missing'' \<notin> set args
                     then 1 else 0)"
    by (auto simp: main_def run_def parseOptions_def)
next
  assume "''--help'' \<notin> set args \<and> ''-h'' \<notin> set args" and "\<forall>r. validate dir \<noteq> Return r"
  then show "main args dir writable = Inr 1"
    using validate_outcome [of dir] by (auto simp: main_def run_def)
next
  show "hasIssues res \<longleftrightarrow>
        (\<exists>lang \<in> set (languages res). missingKeys lang \<noteq> [] \<or> extraKeys lang \<noteq> [])"
    by (simp add: hasIssues_def list_ex_iff)
qed

theorem exit_code_contract_witness:
  "main [] mockLocalesDir True = Inr 1
   \<and> main [''--allow-missing''] mockLocalesDir True = Inr 0
   \<and> main [''--report'', ''--warn-only''] mockLocalesDir True = Inr 0
   \<and> main [''--allow-missing'']
        \<lparr>listing = Some [''en.json''], source_of = (\<lambda>file. Missing)\<rparr> True = Inr 1"
proof -
  define res where
    "res = \<lparr>masterKeyCount = 5,
            languages =
              [compareKeys
                 [''app.name'', ''app.version'', ''common.no'', ''common.yes'', ''nested.deep.value'']
                 [''app.name'', ''common.yes''] ''ja.json'']\<rparr>"
  have ret: "validate mockLocalesDir = Return res"
    by (simp add: validate_def loadLanguageFile_def masterFile_def mockLocalesDir_def
        mockEnContent_def mockJaContent_def extractKeys_JObj startsWith_def fullKeyOf_def
        endsWith_def res_def)
  have issues: "hasIssues res"
    by (simp add: hasIssues_def res_def compareKeys_def)
  have none: "\<forall>r. validate \<lparr>listing = Some [''en.json''], source_of = (\<lambda>file. Missing)\<rparr> \<noteq> Return r"
    by (simp add: validate_def loadLanguageFile_def)
  have one: "main [] mockLocalesDir True = Inr 1"
    using exit_code_contract [where args = "[]" and dir = mockLocalesDir and res = res
        and writable = True] ret issues
    by simp
  have two: "main [''--allow-missing''] mockLocalesDir True = Inr 0"
    using exit_code_contract [where args = "[''--allow-missing'']" and dir = mockLocalesDir
        and res = res and writable = True] ret issues
    by simp
  have three: "main [''--report'', ''--warn-only''] mockLocalesDir True = Inr 0"
    using exit_code_contract [where args = "[''--report'', ''--warn-only'']"
        and dir = mockLocalesDir and res = res and writable = True] ret issues
    by simp
  have four: "main [''--allow-missing'']
        \<lparr>listing = Some [''en.json''], source_of = (\<lambda>file. Missing)\<rparr> True = Inr 1"
    using exit_code_contract [where args = "[''--allow-missing'']"
        and dir = "\<lparr>listing = Some [''en.json''], source_of = (\<lambda>file. Missing)\<rparr>"
        and writable = True] none
    by simp
  from one two three four show ?thesis by blast
qed

text \<open>
  Claim C7 as the specification states it gives exit code 0 to every run in a lenient mode.
  A target file that cannot be parsed ends the run with code 1 in the mode \<^verbatim>\<open>--warn-only\<close>
  as in every other.
\<close>

theorem exit_code_unparsable_target_counterexample:
  "main [''--warn-only'']
     \<lparr>listing = Some [''en.json'', ''ja.json''],
      source_of = (\<lambda>file. if file = ''en.json'' then Parsed mockEnContent else Unparsable)\<rparr>
     True = Inr 1"
  by (simp add: main_def run_def validate_def loadLanguageFile_def masterFile_def
      extractKeys_def objectEntries_def mockEnContent_def endsWith_def parseOptions_def)


section \<open>The comparison of two key lists\<close>

lemma powi_pos: "0 < (2::rat) powi e"
  by (simp add: power_int_def)

lemma binary_exponent_bounds:
  fixes x :: rat
  assumes "0 < x"
  shows "2 powi (binary_exponent x) \<le> x" and "x < 2 powi (binary_exponent x + 1)"
proof -
  show "2 powi (binary_exponent x) \<le> x"
  proof (cases "1 \<le> x")
    case True
    let ?n = "\<lfloor>x\<rfloor>"
    have n: "0 < ?n" using True by linarith
    have b1: "1 \<le> bitlen ?n" using n by (simp add: bitlen_alt_def)
    have "(2::int) ^ nat (bitlen ?n - 1) \<le> ?n" using bitlen_bounds [OF n] by simp
    then have "of_int ((2::int) ^ nat (bitlen ?n - 1)) \<le> (of_int ?n :: rat)"
      by (simp only: of_int_le_iff)
    then have "(2::rat) ^ nat (bitlen ?n - 1) \<le> of_int ?n" by simp
    also have "\<dots> \<le> x" by simp
    finally show ?thesis using True b1 by (simp add: binary_exponent_def power_int_def)
  next
    case False
    let ?y = "1 / x"
    let ?N = "\<lceil>?y\<rceil>"
    let ?k = "bitlen (?N - 1)"
    have y: "1 < ?y" using False assms by simp
    have N: "0 < ?N - 1" using y by linarith
    have "?N - 1 < 2 ^ nat ?k" using bitlen_bounds [OF N] by simp
    then have "?N \<le> 2 ^ nat ?k" by simp
    then have "(of_int ?N :: rat) \<le> of_int (2 ^ nat ?k)" by (simp only: of_int_le_iff)
    then have "(of_int ?N :: rat) \<le> 2 ^ nat ?k" by simp
    moreover have "?y \<le> of_int ?N" by simp
    ultimately have "?y \<le> 2 ^ nat ?k" by linarith
    then have "1 \<le> x * 2 ^ nat ?k" using assms by (simp add: field_simps)
    then have "1 / 2 ^ nat ?k \<le> x" by (simp add: field_simps)
    moreover have "0 \<le> ?k" by (rule bitlen_nonneg)
    then have "(2::rat) powi (- ?k) = 1 / 2 ^ nat ?k"
      by (simp add: power_int_minus_divide power_int_nonneg_exp)
    ultimately show ?thesis using False
      by (simp add: binary_exponent_def)
  qed
  show "x < 2 powi (binary_exponent x + 1)"
  proof (cases "1 \<le> x")
    case True
    let ?n = "\<lfloor>x\<rfloor>"
    have n: "0 < ?n" using True by linarith
    have b1: "1 \<le> bitlen ?n" using n by (simp add: bitlen_alt_def)
    have "?n < 2 ^ nat (bitlen ?n)" using bitlen_bounds [OF n] by simp
    then have "?n + 1 \<le> 2 ^ nat (bitlen ?n)" by simp
    then have "(of_int (?n + 1) :: rat) \<le> of_int (2 ^ nat (bitlen ?n))" by (simp only: of_int_le_iff)
    then have "(of_int ?n + 1 :: rat) \<le> 2 ^ nat (bitlen ?n)" by simp
    moreover have "x < of_int ?n + 1" by linarith
    ultimately have "x < 2 ^ nat (bitlen ?n)" by linarith
    then show ?thesis using True b1 by (simp add: binary_exponent_def power_int_def)
  next
    case False
    let ?y = "1 / x"
    let ?N = "\<lceil>?y\<rceil>"
    let ?k = "bitlen (?N - 1)"
    have y: "1 < ?y" using False assms by simp
    have N: "0 < ?N - 1" using y by linarith
    have k1: "1 \<le> ?k" using N by (simp add: bitlen_alt_def)
    have "2 ^ nat (?k - 1) \<le> ?N - 1" using bitlen_bounds [OF N] by simp
    then have "(of_int (2 ^ nat (?k - 1)) :: rat) \<le> of_int (?N - 1)" by (simp only: of_int_le_iff)
    then have "(2 ^ nat (?k - 1) :: rat) \<le> of_int ?N - 1" by simp
    moreover have "of_int ?N - 1 < ?y" by linarith
    ultimately have "(2 ^ nat (?k - 1) :: rat) < ?y" by linarith
    then have "x * 2 ^ nat (?k - 1) < 1" using assms by (simp add: field_simps)
    then have lt: "x < 1 / 2 ^ nat (?k - 1)" by (simp add: field_simps)
    have "0 \<le> ?k - 1" using k1 by simp
    then have "(2::rat) powi (- (?k - 1)) = 1 / 2 ^ nat (?k - 1)"
      by (simp only: power_int_minus_divide power_int_nonneg_exp)
    then have "(2::rat) powi (- ?k + 1) = 1 / 2 ^ nat (?k - 1)"
      by (simp add: algebra_simps)
    then show ?thesis using False lt by (simp add: binary_exponent_def)
  qed
qed

lemma round_half_even_error: "\<bar>of_int (round_half_even r) - r\<bar> \<le> 1 / 2"
proof -
  have "of_int \<lfloor>r\<rfloor> \<le> r" "r < of_int \<lfloor>r\<rfloor> + 1"
    by linarith+
  then show ?thesis
    unfolding round_half_even_def Let_def by (auto simp: abs_le_iff)
qed


lemma to_double_error:
  assumes "0 < x"
  shows "\<bar>to_double x - x\<bar> \<le> x / 2 ^ 53"
proof -
  define e where "e = binary_exponent x - 52"
  define p :: rat where "p = 2 powi e"
  define r where "r = x / p"
  have p: "0 < p" unfolding p_def by (rule powi_pos)
  have "(2::rat) powi (e + 52) = 2 powi e * 2 powi 52"
    by (rule power_int_add) simp
  then have "p * 2 ^ 52 = 2 powi (binary_exponent x)"
    by (simp add: p_def e_def)
  then have "p * 2 ^ 52 \<le> x"
    using binary_exponent_bounds(1) [OF assms] by simp
  then have ple: "p / 2 \<le> x / 2 ^ 53" by simp
  have td: "to_double x = of_int (round_half_even r) * p"
    using assms by (simp add: to_double_def Let_def e_def p_def r_def)
  have x: "x = r * p" using p by (simp add: r_def)
  have "\<bar>of_int (round_half_even r) - r\<bar> * p \<le> 1 / 2 * p"
    using round_half_even_error [of r] p by (intro mult_right_mono) simp_all
  moreover have "\<bar>to_double x - x\<bar> = \<bar>of_int (round_half_even r) - r\<bar> * p"
  proof -
    have "to_double x - x = (of_int (round_half_even r) - r) * p"
      using td x by (simp add: algebra_simps)
    then show ?thesis using p by (simp add: abs_mult)
  qed
  ultimately have "\<bar>to_double x - x\<bar> \<le> p / 2" by simp
  then show ?thesis using ple by linarith
qed

lemma to_double_pos:
  assumes "0 < x"
  shows "0 < to_double x"
proof -
  have "x / 2 ^ 53 < x" using assms by (simp add: field_simps)
  then show ?thesis using to_double_error [OF assms] by linarith
qed

lemma half_gap:
  fixes k m :: nat and n :: int
  assumes "0 < m" and "of_int n + 1 / 2 < 10000 * (of_nat k :: rat) / of_nat m"
  shows "1 / (2 * of_nat m) \<le> 10000 * (of_nat k :: rat) / of_nat m - (of_int n + 1 / 2)"
proof -
  have "(of_int n + 1 / 2) * (2 * of_nat m) < 10000 * (of_nat k :: rat) / of_nat m * (2 * of_nat m)"
    using assms by (intro mult_strict_right_mono) simp_all
  then have "(of_int ((2 * n + 1) * int m) :: rat) < of_int (20000 * int k)"
    using assms(1) by (simp add: field_simps)
  then have "(2 * n + 1) * int m < 20000 * int k"
    by (simp only: of_int_less_iff)
  then have "(2 * n + 1) * int m + 1 \<le> 20000 * int k" by simp
  then have "(of_int ((2 * n + 1) * int m + 1) :: rat) \<le> of_int (20000 * int k)"
    by (simp only: of_int_le_iff)
  then have "(2 * of_int n + 1) * of_nat m + 1 \<le> 20000 * (of_nat k :: rat)" by simp
  then show ?thesis using assms(1) by (simp add: field_simps)
qed

lemma half_gap':
  fixes k m :: nat and n :: int
  assumes "0 < m" and "10000 * (of_nat k :: rat) / of_nat m < of_int n - 1 / 2"
  shows "1 / (2 * of_nat m) \<le> (of_int n - 1 / 2) - 10000 * (of_nat k :: rat) / of_nat m"
proof -
  have "10000 * (of_nat k :: rat) / of_nat m * (2 * of_nat m) < (of_int n - 1 / 2) * (2 * of_nat m)"
    using assms by (intro mult_strict_right_mono) simp_all
  then have "(of_int (20000 * int k) :: rat) < of_int ((2 * n - 1) * int m)"
    using assms(1) by (simp add: field_simps)
  then have "20000 * int k < (2 * n - 1) * int m"
    by (simp only: of_int_less_iff)
  then have "20000 * int k + 1 \<le> (2 * n - 1) * int m" by simp
  then have "(of_int (20000 * int k + 1) :: rat) \<le> of_int ((2 * n - 1) * int m)"
    by (simp only: of_int_le_iff)
  then have "20000 * (of_nat k :: rat) + 1 \<le> (2 * of_int n - 1) * of_nat m" by simp
  then show ?thesis using assms(1) by (simp add: field_simps)
qed


lemma coverage_nearest:
  fixes k m :: nat
  assumes m: "0 < m" and k: "k < 2 ^ 32"
  shows "\<bar>of_int (toFixed2 (js_mul (js_div (of_nat k) (of_nat m)) 100)) / 100
          - (of_nat k :: rat) / of_nat m * 100\<bar> \<le> 1 / 200"
proof (cases "k = 0")
  case True
  have "\<lfloor>1 / 2 :: rat\<rfloor> = 0" by (rule floor_unique) simp_all
  with True show ?thesis by (simp add: js_div_def js_mul_def to_double_def toFixed2_def)
next
  case False
  define q :: rat where "q = of_nat k / of_nat m"
  define y1 where "y1 = to_double q"
  define y2 where "y2 = to_double (y1 * 100)"
  define n where "n = \<lfloor>y2 * 100 + 1 / 2\<rfloor>"
  define X :: rat where "X = 10000 * of_nat k / of_nat m"
  have q: "0 < q" using False m by (simp add: q_def)
  have e1: "\<bar>y1 - q\<bar> \<le> q / 2 ^ 53" unfolding y1_def by (rule to_double_error [OF q])
  have y1: "0 < y1" unfolding y1_def by (rule to_double_pos [OF q])
  have y1100: "0 < y1 * 100" using y1 by simp
  have e2: "\<bar>y2 - y1 * 100\<bar> \<le> y1 * 100 / 2 ^ 53"
    unfolding y2_def by (rule to_double_error [OF y1100])
  have y2: "0 < y2" unfolding y2_def by (rule to_double_pos [OF y1100])
  define d where "d = q / 2 ^ 53"
  define d2 where "d2 = y1 * 100 / 2 ^ 53"
  have d: "0 \<le> d" "d \<le> q" using q by (simp_all add: d_def field_simps)
  have b1: "\<bar>y1 - q\<bar> \<le> d" using e1 by (simp only: d_def)
  have b2: "\<bar>y2 - y1 * 100\<bar> \<le> d2" using e2 by (simp only: d2_def)
  have y1le: "y1 \<le> 2 * q" using b1 d by linarith
  have "y1 * 100 / 2 ^ 53 \<le> (2 * q) * 100 / 2 ^ 53"
    using y1le by (intro divide_right_mono mult_right_mono) simp_all
  also have "\<dots> = 200 * d" by (simp add: d_def)
  finally have d2: "d2 \<le> 200 * d" by (simp only: d2_def)
  have "\<bar>y2 * 100 - 10000 * q\<bar> \<le> 30000 * d"
    using b1 b2 d2 by linarith
  moreover have "10000 * q = X"
    by (simp add: X_def q_def)
  ultimately have err: "\<bar>y2 * 100 - X\<bar> \<le> 30000 * d"
    by (simp only:)
  define g :: rat where "g = 1 / (2 * of_nat m)"
  have "(of_nat k :: rat) < of_nat (2 ^ 32)"
    using k by (simp only: of_nat_less_iff)
  then have kk: "(of_nat k :: rat) < 4294967296" by simp
  have "30000 * d = (60000 * of_nat k / 2 ^ 53) * g"
    using m by (simp add: d_def q_def g_def)
  also have "\<dots> < 1 * g"
  proof (rule mult_strict_right_mono)
    have "60000 * (of_nat k :: rat) < 9007199254740992" using kk by linarith
    then show "60000 * (of_nat k :: rat) / 2 ^ 53 < 1" by simp
    show "0 < g" using m by (simp add: g_def)
  qed
  finally have small: "30000 * d < g" by simp
  have fl: "of_int n \<le> y2 * 100 + 1 / 2" "y2 * 100 + 1 / 2 < of_int n + 1"
    unfolding n_def by linarith+
  have upper: "X \<le> of_int n + 1 / 2"
  proof (rule ccontr)
    assume "\<not> X \<le> of_int n + 1 / 2"
    then have "of_int n + 1 / 2 < 10000 * (of_nat k :: rat) / of_nat m" by (simp add: X_def)
    from half_gap [OF m this] have "g \<le> X - (of_int n + 1 / 2)"
      by (simp only: X_def g_def)
    then show False using small err fl by linarith
  qed
  have lower: "of_int n - 1 / 2 \<le> X"
  proof (rule ccontr)
    assume "\<not> of_int n - 1 / 2 \<le> X"
    then have "10000 * (of_nat k :: rat) / of_nat m < of_int n - 1 / 2" by (simp add: X_def)
    from half_gap' [OF m this] have "g \<le> (of_int n - 1 / 2) - X"
      by (simp only: X_def g_def)
    then show False using small err fl by linarith
  qed
  have "toFixed2 (js_mul (js_div (of_nat k) (of_nat m)) 100) = n"
    using y2 by (simp add: toFixed2_def js_mul_def js_div_def n_def y2_def y1_def q_def)
  moreover have "\<bar>of_int n / 100 - (of_nat k :: rat) / of_nat m * 100\<bar> \<le> 1 / 200"
  proof -
    have near: "\<bar>of_int n - X\<bar> \<le> 1 / 2" using upper lower by linarith
    have "of_int n / 100 - (of_nat k :: rat) / of_nat m * 100 = (of_int n - X) / 100"
      by (simp add: X_def)
    then have eq: "\<bar>of_int n / 100 - (of_nat k :: rat) / of_nat m * 100\<bar> = \<bar>of_int n - X\<bar> / 100"
      by (simp only: abs_divide)
    have "\<bar>of_int n - X\<bar> / 100 \<le> 1 / 200" using near by simp
    then show ?thesis by (simp only: eq)
  qed
  ultimately show ?thesis by simp
qed

lemma to_double_nonneg:
  assumes "0 \<le> x"
  shows "0 \<le> to_double x"
proof (cases "x = 0")
  case True
  then show ?thesis by (simp add: to_double_def)
next
  case False
  then have "0 < x" using assms by simp
  then show ?thesis using to_double_pos [of x] by simp
qed

lemma toFixed2_nonneg: "0 \<le> x \<Longrightarrow> 0 \<le> toFixed2 x"
  by (simp add: toFixed2_def)

lemma coverage_hundredths_nonneg:
  "0 \<le> toFixed2 (js_mul (js_div (of_nat k) (of_nat m)) 100)"
proof -
  have "0 \<le> js_div (of_nat k) (of_nat m)"
    unfolding js_div_def by (rule to_double_nonneg) simp
  then have "0 \<le> js_mul (js_div (of_nat k) (of_nat m)) 100"
    unfolding js_mul_def by (intro to_double_nonneg) simp
  then show ?thesis by (rule toFixed2_nonneg)
qed

lemma parseFloat_hundredths_error:
  assumes "0 \<le> n"
  shows "\<bar>parseFloat_hundredths n - of_int n / 100\<bar> \<le> of_int n / 100 / 2 ^ 53"
proof (cases "n = 0")
  case True
  then show ?thesis by (simp add: parseFloat_hundredths_def to_double_def)
next
  case False
  then have "0 < (of_int n / 100 :: rat)" using assms by simp
  then show ?thesis
    unfolding parseFloat_hundredths_def by (rule to_double_error)
qed

lemma example_coverage: "toFixed2 (js_mul (js_div 1 3) 100) = 3333"
  by code_simp

lemma example_double: "parseFloat_hundredths 3333 = 2345390243441541 / 70368744177664"
  by code_simp

lemma example_double_printed: "toFixed2 (2345390243441541 / 70368744177664) = 3333"
  by code_simp

text \<open>
  Claim C2. \<^verbatim>\<open>compareKeys\<close> returns as missing keys the master keys that are not among the
  target keys, in the order of the master list, and as extra keys the target keys that
  are not among the master keys, in the order of the target list; the result is complete
  exactly when both lists are empty. The coverage is 0 for an empty master list. Otherwise
  (the lists are arrays, of fewer than \<open>2^32\<close> elements) there is a number \<open>n \<ge> 0\<close> of
  hundredths such that the decimal \<open>n / 100\<close> is a two-decimal number nearest to
  \<open>(|targetKeys| - |extraKeys|) / |masterKeys| * 100\<close>, within half a hundredth, and the
  coverage is the double that the text of this decimal denotes: it differs from \<open>n / 100\<close>
  by at most the relative rounding error \<open>2^-53\<close> of a double, so that it is 0 only when
  the decimal is. For the master keys \<^verbatim>\<open>k1\<close>, \<^verbatim>\<open>k2\<close>, \<^verbatim>\<open>k3\<close> and the target key \<^verbatim>\<open>k1\<close> the
  missing keys are \<^verbatim>\<open>k2\<close> and \<^verbatim>\<open>k3\<close>, there is no extra key, the result is not complete and
  the coverage is the double \<open>2345390243441541 / 2^46\<close>, which is the double of the literal
  \<^verbatim>\<open>33.33\<close>: it is within \<open>10^-14\<close> of \<open>33.33\<close> and is written with two decimals as
  \<^verbatim>\<open>33.33\<close>.
\<close>

theorem compareKeys_result:
  "missingKeys (compareKeys masterKeys targetKeys lang)
     = filter (\<lambda>key. key \<notin> set targetKeys) masterKeys
   \<and> extraKeys (compareKeys masterKeys targetKeys lang)
     = filter (\<lambda>key. key \<notin> set masterKeys) targetKeys
   \<and> (isComplete (compareKeys masterKeys targetKeys lang)
        \<longleftrightarrow> missingKeys (compareKeys masterKeys targetKeys lang) = []
            \<and> extraKeys (compareKeys masterKeys targetKeys lang) = [])
   \<and> (masterKeys = [] \<longrightarrow> coverage (compareKeys masterKeys targetKeys lang) = 0)
   \<and> (masterKeys \<noteq> [] \<and> length targetKeys < 2 ^ 32 \<longrightarrow>
        (\<exists>n. 0 \<le> n
           \<and> coverage (compareKeys masterKeys targetKeys lang) = parseFloat_hundredths n
           \<and> \<bar>rat_of_int n / 100
               - (of_nat (length targetKeys)
                  - of_nat (length (extraKeys (compareKeys masterKeys targetKeys lang))))
                 / of_nat (length masterKeys) * 100\<bar> \<le> 1 / 200
           \<and> \<bar>coverage (compareKeys masterKeys targetKeys lang) - rat_of_int n / 100\<bar>
               \<le> rat_of_int n / 100 / 2 ^ 53))
   \<and> compareKeys [''k1'', ''k2'', ''k3''] [''k1''] lang
     = \<lparr>language = lang, totalKeys = 1, missingKeys = [''k2'', ''k3''], extraKeys = [],
        coverage = 2345390243441541 / 2 ^ 46, isComplete = False\<rparr>
   \<and> \<bar>coverage (compareKeys [''k1'', ''k2'', ''k3''] [''k1''] lang) - 3333 / 100\<bar>
       \<le> 1 / 10 ^ 14
   \<and> toFixed2 (coverage (compareKeys [''k1'', ''k2'', ''k3''] [''k1''] lang)) = 3333"
proof (intro conjI impI)
  show "missingKeys (compareKeys masterKeys targetKeys lang)
          = filter (\<lambda>key. key \<notin> set targetKeys) masterKeys"
    by (simp add: compareKeys_def Let_def)
  show "extraKeys (compareKeys masterKeys targetKeys lang)
          = filter (\<lambda>key. key \<notin> set masterKeys) targetKeys"
    by (simp add: compareKeys_def Let_def)
  show "isComplete (compareKeys masterKeys targetKeys lang)
        \<longleftrightarrow> missingKeys (compareKeys masterKeys targetKeys lang) = []
            \<and> extraKeys (compareKeys masterKeys targetKeys lang) = []"
    by (simp add: compareKeys_def Let_def)
  have example: "compareKeys [''k1'', ''k2'', ''k3''] [''k1''] lang
     = \<lparr>language = lang, totalKeys = 1, missingKeys = [''k2'', ''k3''], extraKeys = [],
        coverage = 2345390243441541 / 70368744177664, isComplete = False\<rparr>"
    by (simp add: compareKeys_def Let_def example_coverage example_double)
  then show "compareKeys [''k1'', ''k2'', ''k3''] [''k1''] lang
     = \<lparr>language = lang, totalKeys = 1, missingKeys = [''k2'', ''k3''], extraKeys = [],
        coverage = 2345390243441541 / 2 ^ 46, isComplete = False\<rparr>"
    by simp
  show "\<bar>coverage (compareKeys [''k1'', ''k2'', ''k3''] [''k1''] lang) - 3333 / 100\<bar>
       \<le> 1 / 10 ^ 14"
    by (simp add: example)
  show "toFixed2 (coverage (compareKeys [''k1'', ''k2'', ''k3''] [''k1''] lang)) = 3333"
    by (simp add: example example_double_printed)
next
  assume "masterKeys = []"
  then show "coverage (compareKeys masterKeys targetKeys lang) = 0"
    by (simp add: compareKeys_def Let_def)
next
  assume a: "masterKeys \<noteq> [] \<and> length targetKeys < 2 ^ 32"
  define extra where "extra = filter (\<lambda>key. key \<notin> set masterKeys) targetKeys"
  define k where "k = length targetKeys - length extra"
  define n where
    "n = toFixed2 (js_mul (js_div (of_nat k) (of_nat (length masterKeys))) 100)"
  have le: "length extra \<le> length targetKeys"
    by (simp add: extra_def)
  have m: "0 < length masterKeys" using a by simp
  have "k \<le> length targetKeys" by (simp add: k_def)
  then have k: "k < 2 ^ 32" using a by linarith
  have n0: "0 \<le> n"
    unfolding n_def by (rule coverage_hundredths_nonneg)
  have cov: "coverage (compareKeys masterKeys targetKeys lang) = parseFloat_hundredths n"
    using m by (simp add: compareKeys_def Let_def n_def k_def extra_def)
  have ex: "extraKeys (compareKeys masterKeys targetKeys lang) = extra"
    by (simp add: compareKeys_def Let_def extra_def)
  have "(of_nat (length targetKeys) - of_nat (length extra) :: rat) = of_nat k"
    using le by (simp add: k_def)
  then have near: "\<bar>of_int n / 100
               - (of_nat (length targetKeys) - of_nat (length extra))
                 / of_nat (length masterKeys) * 100\<bar> \<le> (1 / 200 :: rat)"
    using coverage_nearest [OF m k] by (simp only: n_def)
  have dbl: "\<bar>coverage (compareKeys masterKeys targetKeys lang) - rat_of_int n / 100\<bar>
               \<le> rat_of_int n / 100 / 2 ^ 53"
    unfolding cov by (rule parseFloat_hundredths_error [OF n0])
  show "\<exists>n. 0 \<le> n
           \<and> coverage (compareKeys masterKeys targetKeys lang) = parseFloat_hundredths n
           \<and> \<bar>rat_of_int n / 100
               - (of_nat (length targetKeys)
                  - of_nat (length (extraKeys (compareKeys masterKeys targetKeys lang))))
                 / of_nat (length masterKeys) * 100\<bar> \<le> 1 / 200
           \<and> \<bar>coverage (compareKeys masterKeys targetKeys lang) - rat_of_int n / 100\<bar>
               \<le> rat_of_int n / 100 / 2 ^ 53"
  proof (intro exI [of _ n] conjI)
    show "0 \<le> n" by (rule n0)
    show "coverage (compareKeys masterKeys targetKeys lang) = parseFloat_hundredths n"
      by (rule cov)
    show "\<bar>rat_of_int n / 100
               - (of_nat (length targetKeys)
                  - of_nat (length (extraKeys (compareKeys masterKeys targetKeys lang))))
                 / of_nat (length masterKeys) * 100\<bar> \<le> 1 / 200"
      using near by (simp only: ex)
    show "\<bar>coverage (compareKeys masterKeys targetKeys lang) - rat_of_int n / 100\<bar>
               \<le> rat_of_int n / 100 / 2 ^ 53"
      by (rule dbl)
  qed
qed

theorem compareKeys_result_witness:
  "missingKeys (compareKeys [''k1'', ''k2''] [''k1'', ''k2'', ''k3''] ''t.json'') = []
   \<and> extraKeys (compareKeys [''k1'', ''k2''] [''k1'', ''k2'', ''k3''] ''t.json'') = [''k3'']
   \<and> \<not> isComplete (compareKeys [''k1'', ''k2''] [''k1'', ''k2'', ''k3''] ''t.json'')
   \<and> coverage (compareKeys [] [''k1''] ''t.json'') = 0
   \<and> (\<exists>n. 0 \<le> n
          \<and> coverage (compareKeys [''k1'', ''k2''] [''k1'', ''k2'', ''k3''] ''t.json'')
              = parseFloat_hundredths n
          \<and> \<bar>rat_of_int n / 100 - 100\<bar> \<le> 1 / 200
          \<and> \<bar>coverage (compareKeys [''k1'', ''k2''] [''k1'', ''k2'', ''k3''] ''t.json'')
               - rat_of_int n / 100\<bar> \<le> rat_of_int n / 100 / 2 ^ 53)"
proof -
  note inst = compareKeys_result
    [where masterKeys = "[''k1'', ''k2'']" and targetKeys = "[''k1'', ''k2'', ''k3'']"
       and lang = "''t.json''"]
  have small: "[''k1'', ''k2''] \<noteq> [] \<and> length [''k1'', ''k2'', ''k3''] < 2 ^ 32"
    by simp
  have e: "extraKeys (compareKeys [''k1'', ''k2''] [''k1'', ''k2'', ''k3''] ''t.json'') = [''k3'']"
    using inst [THEN conjunct2, THEN conjunct1] by simp
  have m: "missingKeys (compareKeys [''k1'', ''k2''] [''k1'', ''k2'', ''k3''] ''t.json'') = []"
    using inst [THEN conjunct1] by simp
  have c: "\<not> isComplete (compareKeys [''k1'', ''k2''] [''k1'', ''k2'', ''k3''] ''t.json'')"
    using inst [THEN conjunct2, THEN conjunct2, THEN conjunct1] e by simp
  have z: "coverage (compareKeys [] [''k1''] ''t.json'') = 0"
    using compareKeys_result [where masterKeys = "[]" and targetKeys = "[''k1'']"
        and lang = "''t.json''", THEN conjunct2, THEN conjunct2, THEN conjunct2, THEN conjunct1]
    by simp
  have "\<exists>n. 0 \<le> n
          \<and> coverage (compareKeys [''k1'', ''k2''] [''k1'', ''k2'', ''k3''] ''t.json'')
              = parseFloat_hundredths n
          \<and> \<bar>rat_of_int n / 100
              - (of_nat (length [''k1'', ''k2'', ''k3''])
                 - of_nat (length (extraKeys
                     (compareKeys [''k1'', ''k2''] [''k1'', ''k2'', ''k3''] ''t.json''))))
                / of_nat (length [''k1'', ''k2'']) * 100\<bar> \<le> 1 / 200
          \<and> \<bar>coverage (compareKeys [''k1'', ''k2''] [''k1'', ''k2'', ''k3''] ''t.json'')
               - rat_of_int n / 100\<bar> \<le> rat_of_int n / 100 / 2 ^ 53"
    by (rule mp [OF inst [THEN conjunct2, THEN conjunct2, THEN conjunct2, THEN conjunct2,
          THEN conjunct1] small])
  then have n: "\<exists>n. 0 \<le> n
          \<and> coverage (compareKeys [''k1'', ''k2''] [''k1'', ''k2'', ''k3''] ''t.json'')
              = parseFloat_hundredths n
          \<and> \<bar>rat_of_int n / 100 - 100\<bar> \<le> 1 / 200
          \<and> \<bar>coverage (compareKeys [''k1'', ''k2''] [''k1'', ''k2'', ''k3''] ''t.json'')
               - rat_of_int n / 100\<bar> \<le> rat_of_int n / 100 / 2 ^ 53"
    by (simp add: e)
  from m e c z n show ?thesis by blast
qed

end
